theory Spec2Isabelle
  imports Complex_Main "HOL-Library.Log_Nat"
begin

section \<open>Data model\<close>

text \<open>
  The coin engine of the growth-bank backend: the ledger (\<open>CoinCalculationEngine\<close>,
  \<open>CoinService\<close>), the reward calculator (\<open>CoinCalculationEngine.calculateCoins\<close>) and the
  decay engine (\<open>CoinDecayService\<close>), over the tables they read and write.

  Conventions of the embedding.
  \<^item> A \<open>number\<close> of the model is the decimal value that a column holds or a request
    carries, as a rational. Sums and comparisons are exact. The products and the quotient
    that the code hands to \<open>Math.floor\<close> are computed as the code computes them, in
    IEEE 754 binary64: each operand is replaced by the nearest double, and the result of
    each operation is rounded to the nearest double again (section ``Binary64 arithmetic'').
  \<^item> A table is the list of its rows. \<open>coin_ledger\<close> is kept in insertion order, which
    is the order of \<open>created_at\<close>: the newest row is the last element. A query without
    \<open>ORDER BY\<close> (\<open>getActiveUsers\<close>, \<open>getUserSessionsForDecay\<close>) returns its rows in the
    order of the list; the statements below hold for every store, hence for every order
    of its rows, and the examples are stated so that they do not depend on that order.
  \<^item> A query that the database rejects is a rejected promise. The raw fragments that
    \<open>CoinDecayService\<close> writes with escaped quotes (in \<open>applyDecayToSession\<close>,
    \<open>shouldRunHourlyDecay\<close> and \<open>predictDecay\<close>) are kept as the strings that are sent
    (section ``The raw fragments''); the outcome of their queries is a parameter of the
    operations that send them (\<open>fails\<close>, \<open>flagQueryFails\<close>), and \<open>store_faults\<close>,
    \<open>store_flag_query_fails\<close> are its value on PostgreSQL.
  \<^item> A calendar date is its day number (days since 1970-01-01), an instant is its number
    of milliseconds since the epoch; the clock is a parameter \<open>now\<close> of every operation
    that reads it.
  \<^item> The display texts (\<open>description\<close> of a ledger row, \<open>reason\<close> of a bonus) are left
    out; nothing is computed from them.
  \<^item> A rejected promise is a value \<open>Inl e\<close>; the store is passed and returned explicitly.
\<close>

type_synonym number = rat

datatype json =
  JNull | JBool bool | JStr string | JNum number | JArr "json list" | JObj "(string \<times> json) list"

text \<open>
  \<open>metadata->>key\<close>: the text of the value under a key. The text of a string is the
  string and the text of a boolean is \<open>true\<close> or \<open>false\<close>; the digits of a number and the
  text of a nested value are not modelled: such a value has no text here.
\<close>

definition json_text :: "json \<Rightarrow> string option" where
  "json_text j =
     (case j of JStr s \<Rightarrow> Some s
              | JBool b \<Rightarrow> Some (if b then ''true'' else ''false'')
              | _ \<Rightarrow> None)"

definition meta_text :: "(string \<times> json) list \<Rightarrow> string \<Rightarrow> string option" where
  "meta_text md key = (case map_of md key of None \<Rightarrow> None | Some j \<Rightarrow> json_text j)"

datatype change_type = Earned | Decayed | Redeemed | Bonus | Penalty

datatype error = TaskNotFound | DifficultyNotFound | InsufficientBalance | DbError

record ledger_entry =
  user_id :: string
  change_type :: change_type
  amount :: number
  balance_after :: number
  source_type :: string
  reference_id :: string
  metadata :: "(string \<times> json) list"

record user_row =
  u_user_id :: string
  u_status :: string
  u_last_login_at :: "int option"

record task_row =
  t_task_id :: string
  t_subject :: string
  t_task_type :: string
  t_base_coin :: number
  t_is_active :: bool

record difficulty_row =
  d_difficulty_id :: string
  d_label :: string
  d_coefficient :: number
  d_is_active :: bool

datatype session_status = Completed | Partial | Cancelled

record session_row =
  s_session_id :: string
  s_user_id :: string
  s_task_id :: string
  s_difficulty_id :: string
  s_session_date :: int
  s_focus_time_minutes :: number
  s_result_quantity :: number
  s_focus_coins :: number
  s_result_coins :: number
  s_total_coins :: number
  s_status :: session_status
  s_created_at :: int

datatype decay_type = Percentage | Fixed

record DecayRule =
  rule_id :: string
  threshold_days :: int
  decay_rate :: number
  decay_type :: decay_type
  applies_to :: string
  scope_value :: "string option"
  is_active :: bool
  priority :: int
  rule_metadata :: "(string \<times> json) list"

record db =
  users :: "user_row list"
  task_definitions :: "task_row list"
  difficulties :: "difficulty_row list"
  learning_sessions :: "session_row list"
  coin_decay_rules :: "DecayRule list"
  coin_ledger :: "ledger_entry list"

section \<open>Binary64 arithmetic\<close>

text \<open>
  The value of a double is a rational. \<open>to_double x\<close> is the double nearest to \<open>x\<close>, ties
  to the even significand: with \<open>2 ^ e \<le> |x| < 2 ^ (e + 1)\<close>, the multiple of
  \<open>2 ^ (e - 52)\<close> nearest to \<open>x\<close>. Overflow and subnormal numbers are left out: the
  exponent is not bounded.
\<close>

definition pow2 :: "int \<Rightarrow> rat" where
  "pow2 e = (if e \<ge> 0 then 2 ^ nat e else 1 / 2 ^ nat (- e))"

definition binade :: "rat \<Rightarrow> int" where
  "binade x =
     (let (p, q) = quotient_of \<bar>x\<bar>; d = bitlen p - bitlen q
      in if pow2 d \<le> \<bar>x\<bar> then d else d - 1)"

definition round_half_even :: "rat \<Rightarrow> int" where
  "round_half_even m =
     (let f = \<lfloor>m\<rfloor>; r = m - of_int f
      in if r < 1 / 2 then f else if r > 1 / 2 then f + 1 else if even f then f else f + 1)"

definition to_double :: "rat \<Rightarrow> rat" where
  "to_double x =
     (if x = 0 then 0
      else let ulp = pow2 (binade x - 52) in of_int (round_half_even (x / ulp)) * ulp)"

text \<open>
  \<open>a * b\<close> and \<open>a / b\<close> of the language, on the doubles nearest to the operands. The only
  divisor in the code modelled here is the constant 30.
\<close>

definition js_times :: "rat \<Rightarrow> rat \<Rightarrow> rat" where
  "js_times a b = to_double (to_double a * to_double b)"

definition js_divide :: "rat \<Rightarrow> rat \<Rightarrow> rat" where
  "js_divide a b = to_double (to_double a / to_double b)"

text \<open>The rationals that are doubles: those that \<open>to_double\<close> leaves as they are.\<close>

definition is_double :: "rat \<Rightarrow> bool" where
  "is_double x = (to_double x = x)"

section \<open>Ledger store\<close>

text \<open>\<open>x || 0\<close> on a number: the falsy number \<open>0\<close> is replaced by \<open>0\<close>.\<close>

definition or_zero :: "number \<Rightarrow> number" where
  "or_zero x = (if x = 0 then 0 else x)"

text \<open>
  \<open>getCurrentBalance\<close>: the \<open>balance_after\<close> of the user's newest row
  (\<open>orderBy created_at desc, first\<close>), or \<open>0\<close> when the user has no row.
\<close>

definition getCurrentBalance :: "string \<Rightarrow> db \<Rightarrow> number" where
  "getCurrentBalance userId st =
     (case rev (filter (\<lambda>e. user_id e = userId) (coin_ledger st)) of
        [] \<Rightarrow> 0
      | latestRecord # _ \<Rightarrow> or_zero (balance_after latestRecord))"

text \<open>
  \<open>recordCoinTransaction\<close>: read the balance, add the amount, insert one row.
  There is no branch on the change type or on the sign of the amount.
\<close>

definition recordCoinTransaction ::
  "string \<Rightarrow> number \<Rightarrow> change_type \<Rightarrow> string \<Rightarrow> string \<Rightarrow> (string \<times> json) list \<Rightarrow> db \<Rightarrow> db" where
  "recordCoinTransaction userId amt changeType sourceType referenceId md st =
     (let currentBalance = getCurrentBalance userId st;
          newBalance = currentBalance + amt
      in st\<lparr>coin_ledger := coin_ledger st @
            [\<lparr>user_id = userId, change_type = changeType, amount = amt,
              balance_after = newBalance, source_type = sourceType,
              reference_id = referenceId, metadata = md\<rparr>]\<rparr>)"

text \<open>\<open>CoinService.redeemReward\<close>: the only caller that compares the balance first.\<close>

definition redeemReward :: "string \<Rightarrow> string \<Rightarrow> number \<Rightarrow> db \<Rightarrow> error + (bool \<times> db)" where
  "redeemReward userId rewardId coinsCost st =
     (let currentBalance = getCurrentBalance userId st
      in if currentBalance < coinsCost then Inl InsufficientBalance
         else Inr (True, recordCoinTransaction userId (- coinsCost) Redeemed ''reward'' rewardId
                           [(''rewardId'', JStr rewardId)] st))"

text \<open>\<open>CoinService.adjustCoins\<close>: an administrator's signed adjustment.\<close>

definition adjustCoins :: "string \<Rightarrow> number \<Rightarrow> string \<Rightarrow> db \<Rightarrow> db" where
  "adjustCoins userId amt adminId st =
     (let changeType = (if amt > 0 then Bonus else Penalty)
      in recordCoinTransaction userId amt changeType ''admin_adjustment'' adminId
           [(''adminId'', JStr adminId)] st)"

section \<open>Reward calculator\<close>

record CoinCalculationInput =
  userId :: string
  taskId :: string
  difficultyId :: string
  focusTimeMinutes :: number
  resultQuantity :: number
  sessionDate :: int

record bonus_item =
  bonus_type :: string
  bonus_amount :: number

record calculations =
  focusTime :: number
  focusRate :: number
  calcResultQuantity :: number
  baseCoin :: number
  difficultyCoefficient :: number
  bonuses :: "bonus_item list"

record CoinCalculationResult =
  focusCoins :: number
  resultCoins :: number
  totalCoins :: number
  bonusCoins :: number
  calc :: calculations

definition FOCUS_COIN_RATE :: number where
  "FOCUS_COIN_RATE = 30"

definition MIN_FOCUS_TIME :: number where
  "MIN_FOCUS_TIME = 5"

text \<open>\<open>Math.floor\<close>, as a number again.\<close>

definition math_floor :: "number \<Rightarrow> number" where
  "math_floor x = of_int \<lfloor>x\<rfloor>"

definition calculateFocusCoins :: "number \<Rightarrow> number" where
  "calculateFocusCoins focusMinutes =
     (if to_double focusMinutes < MIN_FOCUS_TIME then 0
      else math_floor (js_divide focusMinutes FOCUS_COIN_RATE))"

text \<open>\<open>resultQuantity * baseCoin * difficultyCoefficient\<close> associates to the left.\<close>

definition calculateResultCoins :: "number \<Rightarrow> number \<Rightarrow> number \<Rightarrow> number" where
  "calculateResultCoins quantity base coefficient =
     math_floor (js_times (js_times quantity base) coefficient)"

text \<open>
  \<open>getConsecutiveLearningDays\<close>. The query returns the user's distinct completed
  session dates, newest first, at most 30 of them; it has no condition on the date, so a
  session already stored for \<open>currentDate\<close> (or for a later date) is in the list. The loop
  starts at 1 and, at each row, compares the row's date with \<open>currentDate\<close> minus the
  count so far; it stops at the first row that differs.
\<close>

definition recentSessionDates :: "string \<Rightarrow> db \<Rightarrow> int list" where
  "recentSessionDates uid st =
     take 30 (rev (sort (remdups (map s_session_date
       (filter (\<lambda>s. s_user_id s = uid \<and> s_status s = Completed) (learning_sessions st))))))"

fun consecutive_loop :: "int \<Rightarrow> int list \<Rightarrow> int \<Rightarrow> int" where
  "consecutive_loop today [] consecutiveDays = consecutiveDays"
| "consecutive_loop today (d # ds) consecutiveDays =
     (if d = today - consecutiveDays then consecutive_loop today ds (consecutiveDays + 1)
      else consecutiveDays)"

definition getConsecutiveLearningDays :: "string \<Rightarrow> int \<Rightarrow> db \<Rightarrow> int" where
  "getConsecutiveLearningDays uid currentDate st =
     (let recentSessions = recentSessionDates uid st
      in if length recentSessions = 0 then 1
         else consecutive_loop currentDate recentSessions 1)"

definition calculateConsecutiveBonus :: "string \<Rightarrow> int \<Rightarrow> db \<Rightarrow> bonus_item" where
  "calculateConsecutiveBonus uid sDate st =
     (let consecutiveDays = getConsecutiveLearningDays uid sDate st
      in \<lparr>bonus_type = ''consecutive'',
          bonus_amount = (if consecutiveDays \<ge> 7 then 10
                          else if consecutiveDays \<ge> 3 then 5 else 0)\<rparr>)"

definition calculateFirstTimeBonus :: "string \<Rightarrow> string \<Rightarrow> db \<Rightarrow> bonus_item" where
  "calculateFirstTimeBonus uid tid st =
     (case find (\<lambda>s. s_user_id s = uid \<and> s_task_id s = tid \<and> s_status s = Completed)
             (learning_sessions st) of
        None \<Rightarrow> \<lparr>bonus_type = ''first_time'', bonus_amount = 5\<rparr>
      | Some existingSession \<Rightarrow> \<lparr>bonus_type = ''first_time'', bonus_amount = 0\<rparr>)"

text \<open>The two difficulty labels of the \<open>switch\<close>, as their UTF-8 bytes.\<close>

definition label_hard :: string where
  "label_hard = [CHR 0xE5, CHR 0x9B, CHR 0xB0, CHR 0xE9, CHR 0x9A, CHR 0xBE]"

definition label_extreme :: string where
  "label_extreme = [CHR 0xE6, CHR 0x9E, CHR 0x81, CHR 0xE9, CHR 0x9A, CHR 0xBE]"

definition calculateDifficultyBonus :: "string \<Rightarrow> bonus_item" where
  "calculateDifficultyBonus difficultyLabel =
     \<lparr>bonus_type = ''difficulty'',
      bonus_amount = (if difficultyLabel = label_hard then 3
                      else if difficultyLabel = label_extreme then 8 else 0)\<rparr>"

text \<open>
  \<open>calculateDailyGoalBonus\<close> counts the completed sessions stored for the user on the
  date at the moment of the call; the session being rewarded is in the count only if
  it has been inserted before.
\<close>

definition dailySessionCount :: "string \<Rightarrow> int \<Rightarrow> db \<Rightarrow> nat" where
  "dailySessionCount uid sDate st =
     length (filter (\<lambda>s. s_user_id s = uid \<and> s_session_date s = sDate \<and> s_status s = Completed)
               (learning_sessions st))"

definition calculateDailyGoalBonus :: "string \<Rightarrow> int \<Rightarrow> db \<Rightarrow> bonus_item" where
  "calculateDailyGoalBonus uid sDate st =
     (let sessionCount = dailySessionCount uid sDate st; dailyGoal = 3
      in if sessionCount \<ge> dailyGoal then \<lparr>bonus_type = ''daily_goal'', bonus_amount = 15\<rparr>
         else \<lparr>bonus_type = ''daily_goal'', bonus_amount = 0\<rparr>)"

text \<open>\<open>getDay()\<close> of a day number: day 0 (1970-01-01) was a Thursday.\<close>

definition getDay :: "int \<Rightarrow> int" where
  "getDay d = (d + 4) mod 7"

definition calculateWeekendBonus :: "int \<Rightarrow> bonus_item" where
  "calculateWeekendBonus sDate =
     (let dayOfWeek = getDay sDate
      in if dayOfWeek = 0 \<or> dayOfWeek = 6 then \<lparr>bonus_type = ''weekend'', bonus_amount = 2\<rparr>
         else \<lparr>bonus_type = ''weekend'', bonus_amount = 0\<rparr>)"

definition calculateBonusCoins :: "string \<Rightarrow> string \<Rightarrow> string \<Rightarrow> int \<Rightarrow> db \<Rightarrow> number \<times> bonus_item list" where
  "calculateBonusCoins uid tid difficultyLabel sDate st =
     (let bs = filter (\<lambda>b. bonus_amount b > 0)
                 [calculateConsecutiveBonus uid sDate st,
                  calculateFirstTimeBonus uid tid st,
                  calculateDifficultyBonus difficultyLabel,
                  calculateDailyGoalBonus uid sDate st,
                  calculateWeekendBonus sDate]
      in (foldl (\<lambda>sum b. sum + bonus_amount b) 0 bs, bs))"

definition calculateCoins :: "CoinCalculationInput \<Rightarrow> db \<Rightarrow> error + CoinCalculationResult" where
  "calculateCoins inp st =
     (case find (\<lambda>t. t_task_id t = taskId inp \<and> t_is_active t) (task_definitions st) of
        None \<Rightarrow> Inl TaskNotFound
      | Some task \<Rightarrow>
         (case find (\<lambda>d. d_difficulty_id d = difficultyId inp \<and> d_is_active d) (difficulties st) of
            None \<Rightarrow> Inl DifficultyNotFound
          | Some difficulty \<Rightarrow>
             (let fc = calculateFocusCoins (focusTimeMinutes inp);
                  rc = calculateResultCoins (resultQuantity inp) (t_base_coin task)
                         (d_coefficient difficulty);
                  bonusCalculation = calculateBonusCoins (userId inp) (taskId inp)
                                       (d_label difficulty) (sessionDate inp) st;
                  total = fc + rc + fst bonusCalculation
              in Inr \<lparr>focusCoins = fc, resultCoins = rc, totalCoins = total,
                       bonusCoins = fst bonusCalculation,
                       calc = \<lparr>focusTime = focusTimeMinutes inp, focusRate = FOCUS_COIN_RATE,
                                calcResultQuantity = resultQuantity inp,
                                baseCoin = t_base_coin task,
                                difficultyCoefficient = d_coefficient difficulty,
                                bonuses = snd bonusCalculation\<rparr>\<rparr>)))"

section \<open>Recording a session and its reward\<close>

definition bonus_json :: "bonus_item \<Rightarrow> json" where
  "bonus_json b = JObj [(''type'', JStr (bonus_type b)), (''amount'', JNum (bonus_amount b))]"

definition calculations_json :: "calculations \<Rightarrow> json" where
  "calculations_json c =
     JObj [(''focusTime'', JNum (focusTime c)), (''focusRate'', JNum (focusRate c)),
           (''resultQuantity'', JNum (calcResultQuantity c)), (''baseCoin'', JNum (baseCoin c)),
           (''difficultyCoefficient'', JNum (difficultyCoefficient c)),
           (''bonuses'', JArr (map bonus_json (bonuses c)))]"

text \<open>
  \<open>CoinService.processSessionReward\<close>: one \<open>earned\<close> row of \<open>totalCoins\<close> when it is
  positive, then one \<open>bonus\<close> row of \<open>bonusCoins\<close> when it is positive. The calculation
  is the only step that can throw, and it comes before any write.
\<close>

definition processSessionReward :: "string \<Rightarrow> CoinCalculationInput \<Rightarrow> db \<Rightarrow> error + db" where
  "processSessionReward sessionId calculationInput st =
     (case calculateCoins calculationInput st of
        Inl e \<Rightarrow> Inl e
      | Inr coinResult \<Rightarrow>
         (let st1 = (if totalCoins coinResult > 0
                     then recordCoinTransaction (userId calculationInput) (totalCoins coinResult)
                            Earned ''session'' sessionId
                            [(''sessionId'', JStr sessionId),
                             (''calculations'', calculations_json (calc coinResult))] st
                     else st);
              st2 = (if bonusCoins coinResult \<noteq> 0 \<and> bonusCoins coinResult > 0
                     then recordCoinTransaction (userId calculationInput) (bonusCoins coinResult)
                            Bonus ''session_bonus'' sessionId
                            [(''sessionId'', JStr sessionId),
                             (''bonuses'', JArr (map bonus_json (bonuses (calc coinResult))))] st1
                     else st1)
          in Inr st2))"

record CreateSessionData =
  cs_user_id :: string
  cs_task_id :: string
  cs_difficulty_id :: string
  cs_session_date :: int
  cs_focus_time_minutes :: number
  cs_result_quantity :: number

definition calculation_input :: "CreateSessionData \<Rightarrow> CoinCalculationInput" where
  "calculation_input sessionData =
     \<lparr>userId = cs_user_id sessionData, taskId = cs_task_id sessionData,
      difficultyId = cs_difficulty_id sessionData,
      focusTimeMinutes = cs_focus_time_minutes sessionData,
      resultQuantity = cs_result_quantity sessionData,
      sessionDate = cs_session_date sessionData\<rparr>"

text \<open>
  \<open>AchievementService.awardAchievement\<close>, as far as the ledger goes: a \<open>bonus\<close> row of the
  achievement's points when they are positive. Which achievements a user has newly earned
  (\<open>checkAndAwardAchievements\<close> evaluates condition expressions over the user's statistics)
  is a parameter: the list of the (achievement id, points) pairs to award.
\<close>

fun awardAchievements :: "string \<Rightarrow> (string \<times> number) list \<Rightarrow> db \<Rightarrow> db" where
  "awardAchievements uid [] st = st"
| "awardAchievements uid ((achievementId, points) # rest) st =
     awardAchievements uid rest
       (if points > 0
        then recordCoinTransaction uid points Bonus ''achievement'' achievementId
               [(''achievement_id'', JStr achievementId)] st
        else st)"

text \<open>
  \<open>LearningSessionModel.create\<close>. The coins stored on the session row come from a first
  calculation, made before the row is inserted; the reward written to the ledger comes
  from a second calculation inside \<open>processSessionReward\<close>, made after the insert.
  \<open>session_id\<close> is the primary key of \<open>learning_sessions\<close>: inserting a second row with
  the same id is rejected by the store. The generated id and the clock are parameters.
\<close>

definition insert_session :: "session_row \<Rightarrow> db \<Rightarrow> error + db" where
  "insert_session row st =
     (if s_session_id row \<in> set (map s_session_id (learning_sessions st)) then Inl DbError
      else Inr (st\<lparr>learning_sessions := learning_sessions st @ [row]\<rparr>))"

definition create ::
  "string \<Rightarrow> int \<Rightarrow> (string \<times> number) list \<Rightarrow> CreateSessionData \<Rightarrow> db \<Rightarrow> (error + session_row) \<times> db" where
  "create sessionId now newAchievements sessionData st =
     (case calculateCoins (calculation_input sessionData) st of
        Inl e \<Rightarrow> (Inl e, st)
      | Inr coinResult \<Rightarrow>
         (let row = \<lparr>s_session_id = sessionId, s_user_id = cs_user_id sessionData,
                     s_task_id = cs_task_id sessionData,
                     s_difficulty_id = cs_difficulty_id sessionData,
                     s_session_date = cs_session_date sessionData,
                     s_focus_time_minutes = cs_focus_time_minutes sessionData,
                     s_result_quantity = cs_result_quantity sessionData,
                     s_focus_coins = focusCoins coinResult,
                     s_result_coins = resultCoins coinResult,
                     s_total_coins = totalCoins coinResult,
                     s_status = Completed, s_created_at = now\<rparr>
          in case insert_session row st of
               Inl e \<Rightarrow> (Inl e, st)
             | Inr st1 \<Rightarrow>
                (case processSessionReward sessionId (calculation_input sessionData) st1 of
                   Inl e \<Rightarrow> (Inl e, st1)
                 | Inr st2 \<Rightarrow>
                    (Inr row, awardAchievements (cs_user_id sessionData) newAchievements st2))))"

section \<open>Decay rule engine\<close>

text \<open>The row shape selected by \<open>getUserSessionsForDecay\<close> (a left join with the task).\<close>

record decay_session =
  session_id :: string
  session_date :: int
  total_coins :: number
  subject :: "string option"
  task_type :: "string option"

definition ms_per_day :: int where
  "ms_per_day = 1000 * 60 * 60 * 24"

text \<open>\<open>getDaysSince\<close>: whole days between the start of the session's date and the clock.\<close>

definition getDaysSince :: "int \<Rightarrow> int \<Rightarrow> int" where
  "getDaysSince now dateDay = (now - dateDay * ms_per_day) div ms_per_day"

text \<open>
  \<open>getActiveUsers\<close>: \<open>status = 'active' and last_login_at >= t or exists (a session of
  the user created at or after t)\<close>, with \<open>t\<close> thirty days before the clock.
\<close>

definition getActiveUsers :: "int \<Rightarrow> db \<Rightarrow> string list" where
  "getActiveUsers now st =
     (let thirtyDaysAgo = now - 30 * ms_per_day
      in map u_user_id
           (filter (\<lambda>u. (u_status u = ''active'' \<and>
                          (case u_last_login_at u of None \<Rightarrow> False | Some t \<Rightarrow> t \<ge> thirtyDaysAgo))
                       \<or> list_ex (\<lambda>s. s_user_id s = u_user_id u \<and> s_created_at s \<ge> thirtyDaysAgo)
                            (learning_sessions st))
                   (users st)))"

text \<open>
  \<open>getActiveDecayRules\<close>: the active rules, highest priority first. The query leaves the
  order of rules of equal priority open; here the later row comes first.
\<close>

definition getActiveDecayRules :: "db \<Rightarrow> DecayRule list" where
  "getActiveDecayRules st =
     rev (sort_key priority (filter is_active (coin_decay_rules st)))"

definition task_of :: "string \<Rightarrow> db \<Rightarrow> task_row option" where
  "task_of tid st = find (\<lambda>t. t_task_id t = tid) (task_definitions st)"

definition getUserSessionsForDecay :: "int \<Rightarrow> string \<Rightarrow> db \<Rightarrow> decay_session list" where
  "getUserSessionsForDecay now uid st =
     (let ninetyDaysAgo = (now - 90 * ms_per_day) div ms_per_day
      in map (\<lambda>s. \<lparr>session_id = s_session_id s, session_date = s_session_date s,
                    total_coins = s_total_coins s,
                    subject = map_option t_subject (task_of (s_task_id s) st),
                    task_type = map_option t_task_type (task_of (s_task_id s) st)\<rparr>)
           (filter (\<lambda>s. s_user_id s = uid \<and> s_status s = Completed \<and> s_total_coins s > 0
                         \<and> s_session_date s \<ge> ninetyDaysAgo)
                   (learning_sessions st)))"

definition filterSessionsByRule :: "decay_session list \<Rightarrow> DecayRule \<Rightarrow> decay_session list" where
  "filterSessionsByRule sessions rule =
     filter (\<lambda>session.
               if applies_to rule = ''subject'' then subject session = scope_value rule
               else if applies_to rule = ''task_type'' then task_type session = scope_value rule
               else True)
            sessions"

subsection \<open>The raw fragments\<close>

text \<open>
  The idempotency query of \<open>applyDecayToSession\<close> and \<open>predictDecay\<close> and the query of
  \<open>shouldRunHourlyDecay\<close> each carry a \<open>whereRaw\<close> fragment. The source writes the quotes
  around the key with a doubled backslash before an escaped quote, so the string that
  reaches the database has a backslash before each quote.
\<close>

definition rule_id_fragment :: string where
  "rule_id_fragment =
     ''metadata->>'' @ [CHR 0x5C, CHR 0x22] @ ''rule_id'' @ [CHR 0x5C, CHR 0x22] @ '' = ?''"

definition emergency_fragment :: string where
  "emergency_fragment =
     ''metadata->>'' @ [CHR 0x5C, CHR 0x22] @ ''emergency'' @ [CHR 0x5C, CHR 0x22] @ '' = ?''"

text \<open>
  The part of PostgreSQL's scanner that matters here: outside a string constant
  (\<open>'...'\<close>) and a quoted identifier (\<open>"..."\<close>) a backslash is no token, and a constant
  or identifier left open is an error. \<open>sql_scans\<close> holds of the texts that pass this
  test; a text that fails it is a syntax error and its query is rejected. Comments,
  dollar quoting and constants with escapes are left out: the fragments have none.
\<close>

datatype scan_state = Outside | InConstant | InIdentifier

fun sql_scan :: "scan_state \<Rightarrow> string \<Rightarrow> bool" where
  "sql_scan q [] = (q = Outside)"
| "sql_scan Outside (c # cs) =
     (if c = CHR 0x5C then False
      else if c = CHR 0x27 then sql_scan InConstant cs
      else if c = CHR 0x22 then sql_scan InIdentifier cs
      else sql_scan Outside cs)"
| "sql_scan InConstant (c # cs) =
     (if c = CHR 0x27 then sql_scan Outside cs else sql_scan InConstant cs)"
| "sql_scan InIdentifier (c # cs) =
     (if c = CHR 0x22 then sql_scan Outside cs else sql_scan InIdentifier cs)"

definition sql_scans :: "string \<Rightarrow> bool" where
  "sql_scans text = sql_scan Outside text"

text \<open>
  What the idempotency query selects when the database accepts it: a row of the user
  with change type \<open>decayed\<close>, the session as reference and the rule's id under the
  metadata key \<open>rule_id\<close>. Whether the query is accepted is not decided here but by the
  parameter \<open>fails\<close> of the operations that send it.
\<close>

definition existingDecay :: "string \<Rightarrow> string \<Rightarrow> string \<Rightarrow> db \<Rightarrow> ledger_entry option" where
  "existingDecay uid sid rid st =
     find (\<lambda>e. user_id e = uid \<and> change_type e = Decayed \<and> reference_id e = sid
                \<and> meta_text (metadata e) ''rule_id'' = Some rid)
          (coin_ledger st)"

definition decay_type_name :: "decay_type \<Rightarrow> string" where
  "decay_type_name t = (case t of Percentage \<Rightarrow> ''percentage'' | Fixed \<Rightarrow> ''fixed'')"

text \<open>The amount computed by \<open>applyDecayToSession\<close> (and again by \<open>predictDecay\<close>).\<close>

definition decayAmount :: "decay_session \<Rightarrow> DecayRule \<Rightarrow> number" where
  "decayAmount session rule =
     (let d = (if decay_type rule = Percentage
               then math_floor (js_times (total_coins session) (decay_rate rule))
               else decay_rate rule)
      in min d (total_coins session))"

text \<open>
  A failure of the store while one (user, rule, session) triple is processed is given
  by a predicate on triples, \<open>fails\<close>: where it holds, \<open>applyDecayToSession\<close> throws. Its
  first statement is the idempotency query and its only write is its last step, so a
  throwing call leaves the store as it was. \<open>store_faults\<close> is the predicate of a
  PostgreSQL store: the idempotency query carries \<open>rule_id_fragment\<close> for every triple,
  and it is rejected whenever that text does not pass the scanner.
\<close>

type_synonym faults = "string \<Rightarrow> string \<Rightarrow> string \<Rightarrow> bool"

definition store_faults :: faults where
  "store_faults = (\<lambda>uid rid sid. \<not> sql_scans rule_id_fragment)"

definition applyDecayToSession ::
  "faults \<Rightarrow> int \<Rightarrow> string \<Rightarrow> decay_session \<Rightarrow> DecayRule \<Rightarrow> db \<Rightarrow> error + db" where
  "applyDecayToSession fails now uid session rule st =
     (if fails uid (rule_id rule) (session_id session) then Inl DbError
      else case existingDecay uid (session_id session) (rule_id rule) st of
             Some e \<Rightarrow> Inr st
           | None \<Rightarrow>
              (let amt = decayAmount session rule
               in if amt > 0
                  then Inr (recordCoinTransaction uid (- amt) Decayed ''session_decay''
                              (session_id session)
                              [(''rule_id'', JStr (rule_id rule)),
                               (''session_date'', JNum (of_int (session_date session))),
                               (''days_since_session'',
                                  JNum (of_int (getDaysSince now (session_date session)))),
                               (''original_coins'', JNum (total_coins session)),
                               (''decay_rate'', JNum (decay_rate rule)),
                               (''decay_type'', JStr (decay_type_name (decay_type rule)))] st)
                  else Inr st))"

text \<open>
  \<open>processUserDecay\<close>: the two nested loops, with no \<open>try\<close> inside: the first throwing
  call ends the user's processing, and the rows written before it stay.
\<close>

fun decay_sessions_loop ::
  "faults \<Rightarrow> int \<Rightarrow> string \<Rightarrow> DecayRule \<Rightarrow> decay_session list \<Rightarrow> db \<Rightarrow> error option \<times> db" where
  "decay_sessions_loop fails now uid rule [] st = (None, st)"
| "decay_sessions_loop fails now uid rule (session # rest) st =
     (let daysSinceSession = getDaysSince now (session_date session)
      in if daysSinceSession \<ge> threshold_days rule
         then (case applyDecayToSession fails now uid session rule st of
                 Inl e \<Rightarrow> (Some e, st)
               | Inr st' \<Rightarrow> decay_sessions_loop fails now uid rule rest st')
         else decay_sessions_loop fails now uid rule rest st)"

fun decay_rules_loop ::
  "faults \<Rightarrow> int \<Rightarrow> string \<Rightarrow> decay_session list \<Rightarrow> DecayRule list \<Rightarrow> db \<Rightarrow> error option \<times> db" where
  "decay_rules_loop fails now uid userSessions [] st = (None, st)"
| "decay_rules_loop fails now uid userSessions (rule # rest) st =
     (case decay_sessions_loop fails now uid rule (filterSessionsByRule userSessions rule) st of
        (Some e, st') \<Rightarrow> (Some e, st')
      | (None, st') \<Rightarrow> decay_rules_loop fails now uid userSessions rest st')"

definition processUserDecay ::
  "faults \<Rightarrow> int \<Rightarrow> string \<Rightarrow> DecayRule list \<Rightarrow> db \<Rightarrow> error option \<times> db" where
  "processUserDecay fails now uid decayRules st =
     decay_rules_loop fails now uid (getUserSessionsForDecay now uid st) decayRules st"

text \<open>
  \<open>executeDecayProcess\<close>: one \<open>try\<close>/\<open>catch\<close> around each user's processing; the
  error is logged and the loop goes on with the next user.
\<close>

fun decay_users_loop :: "faults \<Rightarrow> int \<Rightarrow> DecayRule list \<Rightarrow> string list \<Rightarrow> db \<Rightarrow> db" where
  "decay_users_loop fails now decayRules [] st = st"
| "decay_users_loop fails now decayRules (uid # rest) st =
     decay_users_loop fails now decayRules rest
       (snd (processUserDecay fails now uid decayRules st))"

definition executeDecayProcess :: "faults \<Rightarrow> int \<Rightarrow> db \<Rightarrow> db" where
  "executeDecayProcess fails now st =
     (let activeUsers = getActiveUsers now st;
          decayRules = getActiveDecayRules st
      in decay_users_loop fails now decayRules activeUsers st)"

text \<open>
  The same cycle with its trace: the (user, rule, session) triples for which
  \<open>applyDecayToSession\<close> is called, in the order of the calls, and the users whose error
  the \<open>catch\<close> of \<open>executeDecayProcess\<close> logs.
\<close>

type_synonym triple = "string \<times> string \<times> string"

fun decay_sessions_trace ::
  "faults \<Rightarrow> int \<Rightarrow> string \<Rightarrow> DecayRule \<Rightarrow> decay_session list \<Rightarrow> db
     \<Rightarrow> (error option \<times> db) \<times> triple list" where
  "decay_sessions_trace fails now uid rule [] st = ((None, st), [])"
| "decay_sessions_trace fails now uid rule (session # rest) st =
     (let daysSinceSession = getDaysSince now (session_date session)
      in if daysSinceSession \<ge> threshold_days rule
         then (case applyDecayToSession fails now uid session rule st of
                 Inl e \<Rightarrow> ((Some e, st), [(uid, rule_id rule, session_id session)])
               | Inr st' \<Rightarrow>
                   (let (res, calls) = decay_sessions_trace fails now uid rule rest st'
                    in (res, (uid, rule_id rule, session_id session) # calls)))
         else decay_sessions_trace fails now uid rule rest st)"

fun decay_rules_trace ::
  "faults \<Rightarrow> int \<Rightarrow> string \<Rightarrow> decay_session list \<Rightarrow> DecayRule list \<Rightarrow> db
     \<Rightarrow> (error option \<times> db) \<times> triple list" where
  "decay_rules_trace fails now uid userSessions [] st = ((None, st), [])"
| "decay_rules_trace fails now uid userSessions (rule # rest) st =
     (case decay_sessions_trace fails now uid rule (filterSessionsByRule userSessions rule) st of
        ((Some e, st'), calls) \<Rightarrow> ((Some e, st'), calls)
      | ((None, st'), calls) \<Rightarrow>
          (let (res, calls') = decay_rules_trace fails now uid userSessions rest st'
           in (res, calls @ calls')))"

definition processUserDecay_trace ::
  "faults \<Rightarrow> int \<Rightarrow> string \<Rightarrow> DecayRule list \<Rightarrow> db \<Rightarrow> (error option \<times> db) \<times> triple list" where
  "processUserDecay_trace fails now uid decayRules st =
     decay_rules_trace fails now uid (getUserSessionsForDecay now uid st) decayRules st"

record cycle_trace =
  calls :: "triple list"
  logged :: "string list"

fun decay_users_trace ::
  "faults \<Rightarrow> int \<Rightarrow> DecayRule list \<Rightarrow> string list \<Rightarrow> db \<Rightarrow> db \<times> cycle_trace" where
  "decay_users_trace fails now decayRules [] st = (st, \<lparr>calls = [], logged = []\<rparr>)"
| "decay_users_trace fails now decayRules (uid # rest) st =
     (let ((err, st'), cs) = processUserDecay_trace fails now uid decayRules st;
          (st'', tr) = decay_users_trace fails now decayRules rest st'
      in (st'', \<lparr>calls = cs @ calls tr,
                 logged = (case err of None \<Rightarrow> [] | Some e \<Rightarrow> [uid]) @ logged tr\<rparr>))"

definition executeDecayProcess_trace :: "faults \<Rightarrow> int \<Rightarrow> db \<Rightarrow> db \<times> cycle_trace" where
  "executeDecayProcess_trace fails now st =
     (let activeUsers = getActiveUsers now st;
          decayRules = getActiveDecayRules st
      in decay_users_trace fails now decayRules activeUsers st)"

text \<open>
  \<open>triggerDecay\<close>: one user (an error reaches the caller) or the whole cycle. The test
  \<open>if (userId)\<close> sends the empty string, like a missing id, to the whole cycle.
\<close>

definition triggerDecay :: "faults \<Rightarrow> int \<Rightarrow> string option \<Rightarrow> db \<Rightarrow> error option \<times> db" where
  "triggerDecay fails now userIdOpt st =
     (case userIdOpt of
        Some uid \<Rightarrow>
          (if uid \<noteq> [] then processUserDecay fails now uid (getActiveDecayRules st) st
           else (None, executeDecayProcess fails now st))
      | None \<Rightarrow> (None, executeDecayProcess fails now st))"

text \<open>
  The scheduler's two jobs. The hourly job asks \<open>shouldRunHourlyDecay\<close> (is there an
  active rule whose metadata has \<open>emergency\<close> = \<open>true\<close>?) and, if so, runs the same
  \<open>executeDecayProcess\<close> as the daily job. The query of \<open>shouldRunHourlyDecay\<close> carries
  \<open>emergency_fragment\<close>; \<open>flagQueryFails\<close> says that the database rejects it, and
  \<open>store_flag_query_fails\<close> is its value on PostgreSQL. The call is awaited outside the
  \<open>try\<close> of the hourly callback, so a rejection ends the callback before
  \<open>executeDecayProcess\<close>.
\<close>

definition store_flag_query_fails :: bool where
  "store_flag_query_fails = (\<not> sql_scans emergency_fragment)"

definition is_emergency :: "DecayRule \<Rightarrow> bool" where
  "is_emergency rule =
     (meta_text (rule_metadata rule) ''emergency'' = Some ''true'')"

definition shouldRunHourlyDecay :: "bool \<Rightarrow> db \<Rightarrow> error + bool" where
  "shouldRunHourlyDecay flagQueryFails st =
     (if flagQueryFails then Inl DbError
      else case find (\<lambda>r. is_active r \<and> is_emergency r) (coin_decay_rules st) of
             None \<Rightarrow> Inr False
           | Some emergencyRule \<Rightarrow> Inr True)"

definition dailyJob :: "faults \<Rightarrow> int \<Rightarrow> db \<Rightarrow> db" where
  "dailyJob fails now st = executeDecayProcess fails now st"

definition hourlyJob :: "bool \<Rightarrow> faults \<Rightarrow> int \<Rightarrow> db \<Rightarrow> error option \<times> db" where
  "hourlyJob flagQueryFails fails now st =
     (case shouldRunHourlyDecay flagQueryFails st of
        Inl e \<Rightarrow> (Some e, st)
      | Inr shouldRun \<Rightarrow>
          (if shouldRun then (None, executeDecayProcess fails now st) else (None, st)))"

text \<open>
  \<open>predictDecay\<close>: for each offset \<open>i\<close> from 1 to \<open>days\<close>, the same two loops with the age
  moved \<open>i\<close> days ahead and the same idempotency query, adding up instead of writing.
  The function has no \<open>try\<close>: the first rejected query rejects the call. The store is
  returned as it was received: the function has no write.
\<close>

record prediction =
  date :: int
  predictedDecay :: number
  affectedSessions :: int

fun predict_sessions_loop ::
  "faults \<Rightarrow> int \<Rightarrow> string \<Rightarrow> int \<Rightarrow> DecayRule \<Rightarrow> decay_session list \<Rightarrow> db
     \<Rightarrow> number \<times> int \<Rightarrow> error + number \<times> int" where
  "predict_sessions_loop fails now uid i rule [] st acc = Inr acc"
| "predict_sessions_loop fails now uid i rule (session # rest) st (pd, n) =
     (let daysSinceSession = getDaysSince now (session_date session) + i
      in if daysSinceSession \<ge> threshold_days rule
         then (if fails uid (rule_id rule) (session_id session) then Inl DbError
               else case existingDecay uid (session_id session) (rule_id rule) st of
                      None \<Rightarrow> predict_sessions_loop fails now uid i rule rest st
                                (pd + decayAmount session rule, n + 1)
                    | Some hasDecayed \<Rightarrow>
                        predict_sessions_loop fails now uid i rule rest st (pd, n))
         else predict_sessions_loop fails now uid i rule rest st (pd, n))"

fun predict_rules_loop ::
  "faults \<Rightarrow> int \<Rightarrow> string \<Rightarrow> int \<Rightarrow> decay_session list \<Rightarrow> DecayRule list \<Rightarrow> db
     \<Rightarrow> number \<times> int \<Rightarrow> error + number \<times> int" where
  "predict_rules_loop fails now uid i userSessions [] st acc = Inr acc"
| "predict_rules_loop fails now uid i userSessions (rule # rest) st acc =
     (case predict_sessions_loop fails now uid i rule (filterSessionsByRule userSessions rule)
             st acc of
        Inl e \<Rightarrow> Inl e
      | Inr acc' \<Rightarrow> predict_rules_loop fails now uid i userSessions rest st acc')"

fun predict_days ::
  "faults \<Rightarrow> int \<Rightarrow> string \<Rightarrow> decay_session list \<Rightarrow> DecayRule list \<Rightarrow> db \<Rightarrow> int list
     \<Rightarrow> error + prediction list" where
  "predict_days fails now uid userSessions decayRules st [] = Inr []"
| "predict_days fails now uid userSessions decayRules st (i # rest) =
     (case predict_rules_loop fails now uid i userSessions decayRules st (0, 0) of
        Inl e \<Rightarrow> Inl e
      | Inr (pd, n) \<Rightarrow>
          (case predict_days fails now uid userSessions decayRules st rest of
             Inl e \<Rightarrow> Inl e
           | Inr predictions \<Rightarrow>
               Inr (\<lparr>date = (now + i * ms_per_day) div ms_per_day,
                      predictedDecay = pd, affectedSessions = n\<rparr> # predictions)))"

definition predictDecay ::
  "faults \<Rightarrow> int \<Rightarrow> string \<Rightarrow> int \<Rightarrow> db \<Rightarrow> (error + prediction list) \<times> db" where
  "predictDecay fails now uid days st =
     (let decayRules = getActiveDecayRules st;
          userSessions = getUserSessionsForDecay now uid st
      in (predict_days fails now uid userSessions decayRules st [1..days], st))"

section \<open>The system as a sequence of requests\<close>

text \<open>
  The operations that reach the store, as requests served one after the other. Each
  carries what the code takes from outside: the clock, a generated id, the outcome of
  the raw queries of a decay run or a projection, the achievements found for the user. The administrator's
  edits of the rules, the users and the catalogue replace those tables; nothing but
  \<open>create\<close> writes \<open>learning_sessions\<close>, and nothing but \<open>recordCoinTransaction\<close> writes
  \<open>coin_ledger\<close>.
\<close>

datatype request =
    CreateSession string int "(string \<times> number) list" CreateSessionData
  | RedeemReward string string number
  | AdjustCoins string number string
  | DailyJob faults int
  | HourlyJob bool faults int
  | TriggerDecay faults int "string option"
  | PredictDecay faults int string int
  | EditRules "DecayRule list"
  | EditUsers "user_row list"
  | EditCatalogue "task_row list" "difficulty_row list"

fun serve :: "request \<Rightarrow> db \<Rightarrow> db" where
  "serve (CreateSession sessionId now newAchievements sessionData) st =
     snd (create sessionId now newAchievements sessionData st)"
| "serve (RedeemReward uid rewardId coinsCost) st =
     (case redeemReward uid rewardId coinsCost st of Inl e \<Rightarrow> st | Inr (ok, st') \<Rightarrow> st')"
| "serve (AdjustCoins uid amt adminId) st = adjustCoins uid amt adminId st"
| "serve (DailyJob fails now) st = dailyJob fails now st"
| "serve (HourlyJob flagQueryFails fails now) st = snd (hourlyJob flagQueryFails fails now st)"
| "serve (TriggerDecay fails now userIdOpt) st = snd (triggerDecay fails now userIdOpt st)"
| "serve (PredictDecay fails now uid days) st = snd (predictDecay fails now uid days st)"
| "serve (EditRules rs) st = st\<lparr>coin_decay_rules := rs\<rparr>"
| "serve (EditUsers us) st = st\<lparr>users := us\<rparr>"
| "serve (EditCatalogue ts ds) st = st\<lparr>task_definitions := ts, difficulties := ds\<rparr>"

fun serve_all :: "request list \<Rightarrow> db \<Rightarrow> db" where
  "serve_all [] st = st"
| "serve_all (r # rs) st = serve_all rs (serve r st)"

text \<open>The store before the first request: any rules, users and catalogue, no session, no ledger row.\<close>

definition fresh_db :: "user_row list \<Rightarrow> task_row list \<Rightarrow> difficulty_row list \<Rightarrow> DecayRule list \<Rightarrow> db" where
  "fresh_db us ts ds rs =
     \<lparr>users = us, task_definitions = ts, difficulties = ds, learning_sessions = [],
      coin_decay_rules = rs, coin_ledger = []\<rparr>"

section \<open>Views of the store\<close>

text \<open>The ledger rows of one user, oldest first.\<close>

definition user_entries :: "string \<Rightarrow> db \<Rightarrow> ledger_entry list" where
  "user_entries uid st = filter (\<lambda>e. user_id e = uid) (coin_ledger st)"

text \<open>
  The balance trail of a user's rows: each \<open>balance_after\<close> is the one before it (\<open>prev\<close>
  for the first row) plus the row's amount.
\<close>

fun balance_trail :: "number \<Rightarrow> ledger_entry list \<Rightarrow> bool" where
  "balance_trail prev [] = True"
| "balance_trail prev (e # es) =
     (balance_after e = prev + amount e \<and> balance_trail (balance_after e) es)"

text \<open>
  \<open>appended K st st'\<close>: \<open>st'\<close> comes from \<open>st\<close> by calls of \<open>recordCoinTransaction\<close> alone,
  with change types in \<open>K\<close>.
\<close>

inductive appended :: "(change_type \<Rightarrow> bool) \<Rightarrow> db \<Rightarrow> db \<Rightarrow> bool" for K where
  appended_none: "appended K st st"
| appended_record:
    "appended K st st' \<Longrightarrow> K k \<Longrightarrow> appended K st (recordCoinTransaction u a k src ref md st')"

text \<open>The decay rows of a (session, rule) pair, whoever the user of the row is.\<close>

definition decay_rows :: "string \<Rightarrow> string \<Rightarrow> db \<Rightarrow> ledger_entry list" where
  "decay_rows sid rid st =
     filter (\<lambda>e. change_type e = Decayed \<and> reference_id e = sid
                  \<and> meta_text (metadata e) ''rule_id'' = Some rid)
            (coin_ledger st)"

text \<open>The session \<open>sid\<close> is stored as a session of the user \<open>uid\<close>.\<close>

definition session_of_user :: "string \<Rightarrow> string \<Rightarrow> db \<Rightarrow> bool" where
  "session_of_user uid sid st =
     list_ex (\<lambda>s. s_session_id s = sid \<and> s_user_id s = uid) (learning_sessions st)"

text \<open>
  The invariant behind the idempotency of the decay engine: session ids are unique (the
  primary key), every decay row refers to a stored session of the row's user, and no
  (session, rule) pair has two decay rows.
\<close>

definition decay_wf :: "db \<Rightarrow> bool" where
  "decay_wf st =
     (distinct (map s_session_id (learning_sessions st))
      \<and> list_all (\<lambda>e. if change_type e = Decayed
                       then session_of_user (user_id e) (reference_id e) st else True)
                  (coin_ledger st)
      \<and> (\<forall>sid rid. length (decay_rows sid rid st) \<le> 1))"

section \<open>The triples of a cycle\<close>

text \<open>
  The (user, rule, session) triples that are due for a user: for each rule in the order
  of the cycle, the sessions in the rule's scope that are as old as its threshold, in the
  order of \<open>getUserSessionsForDecay\<close>. \<open>upto_first_failure\<close> cuts a list of triples after
  its first failing triple.
\<close>

definition fails_on :: "faults \<Rightarrow> triple \<Rightarrow> bool" where
  "fails_on fails t = (case t of (uid, rid, sid) \<Rightarrow> fails uid rid sid)"

definition due_sessions :: "int \<Rightarrow> DecayRule \<Rightarrow> decay_session list \<Rightarrow> decay_session list" where
  "due_sessions now rule sessions =
     filter (\<lambda>session. getDaysSince now (session_date session) \<ge> threshold_days rule) sessions"

definition due_triples :: "int \<Rightarrow> string \<Rightarrow> DecayRule list \<Rightarrow> db \<Rightarrow> triple list" where
  "due_triples now uid decayRules st =
     concat (map (\<lambda>rule.
                    map (\<lambda>session. (uid, rule_id rule, session_id session))
                      (due_sessions now rule
                         (filterSessionsByRule (getUserSessionsForDecay now uid st) rule)))
                 decayRules)"

fun upto_first_failure :: "(triple \<Rightarrow> bool) \<Rightarrow> triple list \<Rightarrow> triple list" where
  "upto_first_failure bad [] = []"
| "upto_first_failure bad (t # ts) = (if bad t then [t] else t # upto_first_failure bad ts)"


section \<open>Example data\<close>

text \<open>Small concrete stores and inputs, used where a statement is instantiated.\<close>

definition no_faults :: faults where
  "no_faults = (\<lambda>uid rid sid. False)"

definition ex_task :: task_row where
  "ex_task = \<lparr>t_task_id = ''task-1'', t_subject = ''math'', t_task_type = ''practice'',
              t_base_coin = 5, t_is_active = True\<rparr>"

definition ex_difficulty :: difficulty_row where
  "ex_difficulty = \<lparr>d_difficulty_id = ''diff-1'', d_label = ''normal'', d_coefficient = 2,
                    d_is_active = True\<rparr>"

definition ex_db :: db where
  "ex_db = fresh_db [] [ex_task] [ex_difficulty] []"


definition ex_session :: decay_session where
  "ex_session = \<lparr>session_id = ''session-1'', session_date = 19700, total_coins = 100,
                 subject = Some ''math'', task_type = Some ''practice''\<rparr>"

definition ex_rule :: DecayRule where
  "ex_rule = \<lparr>rule_id = ''rule-1'', threshold_days = 7, decay_rate = 1 / 5,
              decay_type = Percentage, applies_to = ''all'', scope_value = None,
              is_active = True, priority = 1, rule_metadata = []\<rparr>"

text \<open>Sessions of \<open>user-1\<close> on seven days in a row, the last of them on day 19737.\<close>

definition ex_stored_for :: "string \<Rightarrow> string \<Rightarrow> int \<Rightarrow> session_row" where
  "ex_stored_for uid sid day =
     \<lparr>s_session_id = sid, s_user_id = uid, s_task_id = ''task-1'',
      s_difficulty_id = ''diff-1'', s_session_date = day, s_focus_time_minutes = 65,
      s_result_quantity = 10, s_focus_coins = 2, s_result_coins = 100, s_total_coins = 102,
      s_status = Completed, s_created_at = day * ms_per_day\<rparr>"

definition ex_stored :: "string \<Rightarrow> int \<Rightarrow> session_row" where
  "ex_stored sid day = ex_stored_for ''user-1'' sid day"

definition ex_db_week :: db where
  "ex_db_week =
     (fresh_db [] [ex_task] [ex_difficulty] [])
       \<lparr>learning_sessions :=
          [ex_stored ''a'' 19731, ex_stored ''b'' 19732, ex_stored ''c'' 19733,
           ex_stored ''d'' 19734, ex_stored ''e'' 19735, ex_stored ''f'' 19736,
           ex_stored ''g'' 19737]\<rparr>"

text \<open>Two sessions of \<open>user-1\<close> stored for day 19737, and the data of a third one.\<close>

definition ex_db_two :: db where
  "ex_db_two =
     (fresh_db [] [ex_task] [ex_difficulty] [])
       \<lparr>learning_sessions := [ex_stored ''s1'' 19737, ex_stored ''s2'' 19737]\<rparr>"

definition ex_create :: CreateSessionData where
  "ex_create = \<lparr>cs_user_id = ''user-1'', cs_task_id = ''task-1'', cs_difficulty_id = ''diff-1'',
                cs_session_date = 19737, cs_focus_time_minutes = 65, cs_result_quantity = 10\<rparr>"

text \<open>
  A store for the decay engine: two active users, an urgent rule that applies after 60
  days and an ordinary one that applies after 7 days, and three sessions that are 8 and
  9 days old at \<open>ex_now\<close>.
\<close>

definition ex_now :: int where
  "ex_now = 19745 * ms_per_day"

definition ex_user :: "string \<Rightarrow> user_row" where
  "ex_user uid = \<lparr>u_user_id = uid, u_status = ''active'', u_last_login_at = Some (19744 * ms_per_day)\<rparr>"

definition ex_rule_urgent :: DecayRule where
  "ex_rule_urgent = \<lparr>rule_id = ''rule-urgent'', threshold_days = 60, decay_rate = 1 / 10,
                     decay_type = Percentage, applies_to = ''all'', scope_value = None,
                     is_active = True, priority = 5,
                     rule_metadata = [(''emergency'', JBool True)]\<rparr>"

definition ex_db_decay :: db where
  "ex_db_decay =
     (fresh_db [ex_user ''user-1'', ex_user ''user-2''] [ex_task] [ex_difficulty]
        [ex_rule_urgent, ex_rule])
       \<lparr>learning_sessions :=
          [ex_stored_for ''user-1'' ''session-1'' 19737,
           ex_stored_for ''user-1'' ''session-2'' 19736,
           ex_stored_for ''user-2'' ''session-3'' 19737]\<rparr>"

definition ex_db_one :: db where
  "ex_db_one =
     (fresh_db [ex_user ''user-1''] [ex_task] [ex_difficulty] [ex_rule])
       \<lparr>learning_sessions := [ex_stored_for ''user-1'' ''session-1'' 19737]\<rparr>"

text \<open>The row that \<open>getUserSessionsForDecay\<close> selects for \<open>session-1\<close>.\<close>

definition ex_session_one :: decay_session where
  "ex_session_one = \<lparr>session_id = ''session-1'', session_date = 19737, total_coins = 102,
                     subject = Some ''math'', task_type = Some ''practice''\<rparr>"

text \<open>A day of requests on \<open>ex_db_two\<close>, and repeated decay runs on \<open>ex_db_one\<close>.\<close>

definition ex_requests :: "request list" where
  "ex_requests =
     [CreateSession ''s3'' 1705312800000 [(''ach-1'', 50)] ex_create,
      AdjustCoins ''user-1'' (- 300) ''admin-1'',
      RedeemReward ''user-1'' ''reward-1'' 10,
      AdjustCoins ''user-2'' 7 ''admin-1'',
      PredictDecay store_faults 1705312800000 ''user-1'' 7]"

definition ex_cycles :: "request list" where
  "ex_cycles =
     [DailyJob no_faults ex_now,
      HourlyJob False no_faults ex_now,
      TriggerDecay no_faults ex_now (Some ''user-1''),
      TriggerDecay no_faults ex_now None,
      DailyJob no_faults (ex_now + ms_per_day)]"

text \<open>
  The store \<open>ex_db_decay\<close> with the rows of its users, its rules and its sessions in
  every order.
\<close>

fun insert_everywhere :: "'a \<Rightarrow> 'a list \<Rightarrow> 'a list list" where
  "insert_everywhere x [] = [[x]]"
| "insert_everywhere x (y # ys) = (x # y # ys) # map ((#) y) (insert_everywhere x ys)"

fun permutations :: "'a list \<Rightarrow> 'a list list" where
  "permutations [] = [[]]"
| "permutations (x # xs) = concat (map (insert_everywhere x) (permutations xs))"

definition ex_decay_orders :: "db list" where
  "ex_decay_orders =
     concat (map (\<lambda>us.
       concat (map (\<lambda>rs.
         map (\<lambda>ss. ex_db_decay\<lparr>users := us, coin_decay_rules := rs, learning_sessions := ss\<rparr>)
           (permutations (learning_sessions ex_db_decay)))
         (permutations (coin_decay_rules ex_db_decay))))
       (permutations (users ex_db_decay)))"





section \<open>The streak in the words of the specification\<close>

text \<open>
  Following the specification's glossary (``Streak: count of consecutive calendar days on
  which the user completed at least one session''), for the streak ending at a date on
  which a session is being rewarded: that date, plus the days before it, one by one, as
  long as the user has a completed session stored for them. This definition is written
  from the specification, to be compared with \<open>getConsecutiveLearningDays\<close>.
\<close>

fun days_back :: "int list \<Rightarrow> int \<Rightarrow> nat \<Rightarrow> int" where
  "days_back dates d 0 = 0"
| "days_back dates d (Suc fuel) =
     (if d \<in> set dates then 1 + days_back dates (d - 1) fuel else 0)"

definition streak_ending_at :: "string \<Rightarrow> int \<Rightarrow> db \<Rightarrow> int" where
  "streak_ending_at uid day st =
     (let dates = map s_session_date
                    (filter (\<lambda>s. s_user_id s = uid \<and> s_status s = Completed) (learning_sessions st))
      in 1 + days_back dates (day - 1) (length dates))"

section \<open>Ledger store: basic facts\<close>

lemma coin_ledger_record:
  "coin_ledger (recordCoinTransaction u a k src ref md st) =
     coin_ledger st @
       [\<lparr>user_id = u, change_type = k, amount = a,
         balance_after = getCurrentBalance u st + a, source_type = src,
         reference_id = ref, metadata = md\<rparr>]"
  by (simp add: recordCoinTransaction_def Let_def)

lemma recordCoinTransaction_tables [simp]:
  "learning_sessions (recordCoinTransaction u a k src ref md st) = learning_sessions st"
  "users (recordCoinTransaction u a k src ref md st) = users st"
  "task_definitions (recordCoinTransaction u a k src ref md st) = task_definitions st"
  "difficulties (recordCoinTransaction u a k src ref md st) = difficulties st"
  "coin_decay_rules (recordCoinTransaction u a k src ref md st) = coin_decay_rules st"
  by (simp_all add: recordCoinTransaction_def Let_def)

lemma floor_rat_numeral [simp]:
  "\<lfloor>(numeral a :: rat) / numeral b\<rfloor> = numeral a div numeral b"
  by (metis floor_divide_of_int_eq of_int_numeral)

lemma meta_text_rule_id [simp]:
  "meta_text ((''rule_id'', JStr rid) # rest) ''rule_id'' = Some rid"
  by (simp add: meta_text_def json_text_def)

section \<open>Binary64 arithmetic: the numbers that are doubles\<close>

lemma pow2_powi: "pow2 e = 2 powi e"
  by (simp add: pow2_def power_int_def power_inverse inverse_eq_divide field_simps)

lemma pow2_pos: "0 < pow2 e"
  by (simp add: pow2_powi)

lemma pow2_add: "pow2 (a + b) = pow2 a * pow2 b"
  by (simp add: pow2_powi power_int_add)

lemma pow2_diff: "pow2 (a - b) = pow2 a / pow2 b"
  by (simp add: pow2_powi power_int_diff)

lemma pow2_int: "pow2 (int j) = 2 ^ j"
  by (simp add: pow2_def)

lemma pow2_less_cancel:
  assumes "pow2 a < pow2 b"
  shows "a < b"
proof (rule ccontr)
  assume "\<not> a < b"
  then have "b \<le> a" by simp
  then have "(2::rat) powi b \<le> 2 powi a" by (rule power_int_increasing) simp
  with assms show False by (simp add: pow2_powi)
qed

text \<open>The exponent found by \<open>binade\<close> is not above that of the number.\<close>

lemma binade_lower:
  assumes "x \<noteq> 0"
  shows "pow2 (binade x) \<le> \<bar>x\<bar>"
proof -
  obtain p q where pq: "quotient_of \<bar>x\<bar> = (p, q)" by (cases "quotient_of \<bar>x\<bar>")
  have q: "0 < q" using pq by (rule quotient_of_denom_pos)
  have x: "\<bar>x\<bar> = of_int p / of_int q" using pq by (rule quotient_of_div)
  have "0 < \<bar>x\<bar>" using assms by simp
  then have p: "0 < p" using q unfolding x by (simp add: zero_less_divide_iff)
  show ?thesis
  proof (cases "pow2 (bitlen p - bitlen q) \<le> \<bar>x\<bar>")
    case True
    then show ?thesis by (simp add: binade_def pq Let_def)
  next
    case False
    have b: "binade x = bitlen p - bitlen q - 1"
      using False by (simp add: binade_def pq Let_def)
    have bp: "1 \<le> bitlen p"
      using p bitlen_eq_zero_iff [of p] bitlen_nonneg [of p] by linarith
    have lp: "pow2 (bitlen p - 1) \<le> of_int p"
    proof -
      have "(2::int) ^ nat (bitlen p - 1) \<le> p" using bitlen_bounds [OF p] by simp
      then have "(of_int ((2::int) ^ nat (bitlen p - 1)) :: rat) \<le> of_int p"
        by (simp only: of_int_le_iff)
      then show ?thesis using bp by (simp add: pow2_def)
    qed
    have lq: "of_int q \<le> pow2 (bitlen q)"
    proof -
      have "q < (2::int) ^ nat (bitlen q)" using bitlen_bounds [OF q] by simp
      then have "(of_int q :: rat) < of_int ((2::int) ^ nat (bitlen q))"
        by (simp only: of_int_less_iff)
      then show ?thesis using bitlen_nonneg [of q] by (simp add: pow2_def)
    qed
    have "bitlen p - bitlen q - 1 = (bitlen p - 1) - bitlen q" by simp
    then have "pow2 (binade x) = pow2 (bitlen p - 1) / pow2 (bitlen q)"
      by (simp only: b pow2_diff)
    also have "\<dots> \<le> of_int p / pow2 (bitlen q)"
      using lp pow2_pos [of "bitlen q"] by (simp add: divide_right_mono)
    also have "\<dots> \<le> of_int p / of_int q"
      using lq p q by (simp add: frac_le)
    finally show ?thesis by (simp add: x)
  qed
qed

text \<open>It is the exponent of the number: \<open>2 ^ e \<le> |x| < 2 ^ (e + 1)\<close>.\<close>

lemma binade_upper:
  assumes "x \<noteq> 0"
  shows "\<bar>x\<bar> < pow2 (binade x + 1)"
proof -
  obtain p q where pq: "quotient_of \<bar>x\<bar> = (p, q)" by (cases "quotient_of \<bar>x\<bar>")
  have q: "0 < q" using pq by (rule quotient_of_denom_pos)
  have x: "\<bar>x\<bar> = of_int p / of_int q" using pq by (rule quotient_of_div)
  have "0 < \<bar>x\<bar>" using assms by simp
  then have p: "0 < p" using q unfolding x by (simp add: zero_less_divide_iff)
  show ?thesis
  proof (cases "pow2 (bitlen p - bitlen q) \<le> \<bar>x\<bar>")
    case False
    then show ?thesis by (simp add: binade_def pq Let_def)
  next
    case True
    have b: "binade x = bitlen p - bitlen q"
      using True by (simp add: binade_def pq Let_def)
    have bq: "1 \<le> bitlen q"
      using q bitlen_eq_zero_iff [of q] bitlen_nonneg [of q] by linarith
    have lq: "pow2 (bitlen q - 1) \<le> of_int q"
    proof -
      have "(2::int) ^ nat (bitlen q - 1) \<le> q" using bitlen_bounds [OF q] by simp
      then have "(of_int ((2::int) ^ nat (bitlen q - 1)) :: rat) \<le> of_int q"
        by (simp only: of_int_le_iff)
      then show ?thesis using bq by (simp add: pow2_def)
    qed
    have lp: "of_int p < pow2 (bitlen p)"
    proof -
      have "p < (2::int) ^ nat (bitlen p)" using bitlen_bounds [OF p] by simp
      then have "(of_int p :: rat) < of_int ((2::int) ^ nat (bitlen p))"
        by (simp only: of_int_less_iff)
      then show ?thesis using bitlen_nonneg [of p] by (simp add: pow2_def)
    qed
    have "\<bar>x\<bar> < pow2 (bitlen p) / of_int q"
      using lp q by (simp add: x divide_strict_right_mono)
    also have "\<dots> \<le> pow2 (bitlen p) / pow2 (bitlen q - 1)"
      using lq pow2_pos [of "bitlen q - 1"] pow2_pos [of "bitlen p"]
      by (intro divide_left_mono) simp_all
    also have "\<dots> = pow2 (bitlen p - (bitlen q - 1))" by (simp only: pow2_diff)
    also have "bitlen p - (bitlen q - 1) = binade x + 1" by (simp add: b)
    finally show ?thesis .
  qed
qed

lemma round_half_even_of_int: "round_half_even (of_int n) = n"
  by (simp add: round_half_even_def)



lemma round_half_even_near: "\<bar>of_int (round_half_even y) - y\<bar> \<le> 1 / 2"
proof -
  define r where "r = y - of_int \<lfloor>y\<rfloor>"
  have r: "0 \<le> r" "r < 1" unfolding r_def by linarith+
  have "round_half_even y = \<lfloor>y\<rfloor> \<and> r \<le> 1 / 2 \<or> round_half_even y = \<lfloor>y\<rfloor> + 1 \<and> 1 / 2 \<le> r"
    by (auto simp add: round_half_even_def Let_def r_def)
  then show ?thesis
  proof
    assume a: "round_half_even y = \<lfloor>y\<rfloor> \<and> r \<le> 1 / 2"
    then have "of_int (round_half_even y) - y = - r" by (simp add: r_def)
    then show ?thesis using a r by simp
  next
    assume a: "round_half_even y = \<lfloor>y\<rfloor> + 1 \<and> 1 / 2 \<le> r"
    then have "of_int (round_half_even y) - y = 1 - r" by (simp add: r_def)
    then show ?thesis using a r by simp
  qed
qed

text \<open>\<open>to_double x\<close> is within half a unit in the last place of \<open>x\<close>.\<close>

lemma to_double_near:
  "\<bar>to_double x - x\<bar> \<le> pow2 (binade x - 53)"
proof (cases "x = 0")
  case True
  then show ?thesis using pow2_pos [of "binade x - 53"] by (simp add: to_double_def)
next
  case False
  define u where "u = pow2 (binade x - 52)"
  have u: "0 < u" by (simp add: u_def pow2_pos)
  have "to_double x - x = (of_int (round_half_even (x / u)) - x / u) * u"
    using False u by (simp add: to_double_def Let_def u_def [symmetric] algebra_simps)
  then have "\<bar>to_double x - x\<bar> = \<bar>of_int (round_half_even (x / u)) - x / u\<bar> * u"
    using u by (simp add: abs_mult)
  also have "\<dots> \<le> 1 / 2 * u"
    using round_half_even_near [of "x / u"] u by (intro mult_right_mono) simp_all
  also have "\<dots> = pow2 (binade x - 53)"
  proof -
    have "binade x - 53 = (binade x - 52) - 1" by simp
    then have "pow2 (binade x - 53) = pow2 (binade x - 52) / pow2 1" by (simp only: pow2_diff)
    then show ?thesis by (simp add: u_def pow2_def)
  qed
  finally show ?thesis .
qed

text \<open>
  A dyadic fraction with a numerator of at most 53 bits is a double; so is a whole number
  below \<open>2 ^ 53\<close>.
\<close>

lemma to_double_dyadic:
  assumes "\<bar>n\<bar> < 2 ^ 53"
  shows "to_double (of_int n / 2 ^ k) = of_int n / 2 ^ k"
proof (cases "n = 0")
  case True
  then show ?thesis by (simp add: to_double_def)
next
  case False
  define x :: rat where "x = of_int n / 2 ^ k"
  define d where "d = binade x"
  have x0: "x \<noteq> 0" using False by (simp add: x_def)
  have "(of_int \<bar>n\<bar> :: rat) < of_int (2 ^ 53)" using assms by (simp only: of_int_less_iff)
  then have "\<bar>x\<bar> < 2 ^ 53 / 2 ^ k"
    by (simp add: x_def abs_divide divide_strict_right_mono)
  also have "\<dots> = pow2 (53 - int k)"
    by (simp add: pow2_diff pow2_int) (simp add: pow2_def)
  finally have "pow2 d < pow2 (53 - int k)"
    using binade_lower [OF x0] by (simp add: d_def)
  then have dk: "d < 53 - int k" by (rule pow2_less_cancel)
  define j where "j = nat (52 - int k - d)"
  have j: "int j = 52 - int k - d" using dk by (simp add: j_def)
  have "x / pow2 (d - 52) = x * pow2 (52 - d)"
    by (simp add: pow2_diff)
  also have "\<dots> = of_int n * (pow2 (52 - d) / pow2 (int k))"
    by (simp add: x_def pow2_int)
  also have "\<dots> = of_int n * pow2 (int j)"
  proof -
    have "52 - d - int k = int j" using j by simp
    then show ?thesis by (simp only: pow2_diff [symmetric])
  qed
  also have "\<dots> = of_int (n * 2 ^ j)" by (simp add: pow2_int)
  finally have q: "x / pow2 (d - 52) = of_int (n * 2 ^ j)" .
  have "to_double x = of_int (n * 2 ^ j) * pow2 (d - 52)"
    using x0 by (simp add: to_double_def Let_def d_def [symmetric] q round_half_even_of_int
        del: of_int_mult of_int_power)
  also have "\<dots> = x / pow2 (d - 52) * pow2 (d - 52)" by (simp only: q)
  also have "\<dots> = x" using pow2_pos [of "d - 52"] by simp
  finally show ?thesis by (simp add: x_def)
qed


lemma is_double_dyadic:
  "\<bar>n\<bar> < 2 ^ 53 \<Longrightarrow> is_double (of_int n / 2 ^ k)"
  by (simp add: is_double_def to_double_dyadic)

section \<open>Reward calculator: focus and result coins\<close>

lemma coins_of_ex_create:
  "calculateFocusCoins 65 = 2" "calculateResultCoins 10 5 2 = 100"
  by code_simp+








section \<open>Decay engine: the rejected queries\<close>

lemma store_rejects: "store_faults uid rid sid" "store_flag_query_fails"
  by (simp_all add: store_faults_def store_flag_query_fails_def sql_scans_def rule_id_fragment_def
      emergency_fragment_def)

lemma applyDecayToSession_rejected:
  "fails uid (rule_id r) (session_id s) \<Longrightarrow> applyDecayToSession fails now uid s r st = Inl DbError"
  by (simp add: applyDecayToSession_def)

lemma applyDecayToSession_Inl_iff:
  "(applyDecayToSession fails now uid s r st = Inl e) = (fails uid (rule_id r) (session_id s) \<and> e = DbError)"
  by (auto simp add: applyDecayToSession_def Let_def split: option.splits)

lemma decay_sessions_loop_store:
  "snd (decay_sessions_loop store_faults now uid r ss st) = st"
  by (induction ss) (simp_all add: Let_def applyDecayToSession_def store_rejects)

lemma decay_rules_loop_store:
  "snd (decay_rules_loop store_faults now uid ss rs st) = st"
proof (induction rs)
  case Nil
  then show ?case by simp
next
  case (Cons r rs)
  obtain e st' where p: "decay_sessions_loop store_faults now uid r (filterSessionsByRule ss r) st = (e, st')"
    by (cases "decay_sessions_loop store_faults now uid r (filterSessionsByRule ss r) st")
  with decay_sessions_loop_store [of now uid r "filterSessionsByRule ss r" st] have "st' = st" by simp
  with p Cons show ?case by (cases e) simp_all
qed

lemma processUserDecay_store:
  "snd (processUserDecay store_faults now uid rs st) = st"
  by (simp add: processUserDecay_def decay_rules_loop_store)

lemma decay_users_loop_store:
  "decay_users_loop store_faults now rs us st = st"
  by (induction us) (simp_all add: processUserDecay_store)

lemma executeDecayProcess_store:
  "executeDecayProcess store_faults now st = st"
  by (simp add: executeDecayProcess_def decay_users_loop_store)

lemma decay_amount_examples:
  "decayAmount (s\<lparr>total_coins := 100\<rparr>) (r\<lparr>decay_type := Percentage, decay_rate := 2 / 10\<rparr>) = 20"
  "decayAmount (s\<lparr>total_coins := 10\<rparr>) (r\<lparr>decay_type := Fixed, decay_rate := 50\<rparr>) = 10"
  "decayAmount (s\<lparr>total_coins := 100\<rparr>) (r\<lparr>decay_type := Percentage, decay_rate := 29 / 100\<rparr>) = 28"
proof -
  have a: "math_floor (js_times 100 (2 / 10)) = 20" by code_simp
  have b: "math_floor (js_times 100 (29 / 100)) = 28" by code_simp
  show "decayAmount (s\<lparr>total_coins := 100\<rparr>) (r\<lparr>decay_type := Percentage, decay_rate := 2 / 10\<rparr>) = 20"
    using a by (simp add: decayAmount_def)
  show "decayAmount (s\<lparr>total_coins := 10\<rparr>) (r\<lparr>decay_type := Fixed, decay_rate := 50\<rparr>) = 10"
    by (simp add: decayAmount_def)
  show "decayAmount (s\<lparr>total_coins := 100\<rparr>) (r\<lparr>decay_type := Percentage, decay_rate := 29 / 100\<rparr>) = 28"
    using b by (simp add: decayAmount_def)
qed

section \<open>Decay engine: the amount and the row written\<close>

text \<open>
  Claim C3 (for every eligible (session, rule) pair, the decay amount is
  \<open>min total_coins (floor (total_coins * rate))\<close> under a percentage rule and
  \<open>min total_coins rate\<close> under a fixed rule, and a \<open>decayed\<close> row of minus the amount is
  appended exactly when the amount is positive; 100 coins at a rate of 0.2 yield a row of
  -20). The first statement of \<open>applyDecayToSession\<close> is the idempotency query, whose
  fragment a PostgreSQL store rejects: the function throws for every session and rule,
  before it computes an amount, and no run of the decay engine (a user's processing, a
  cycle, a manual trigger) changes the store. The amount that the statements after the
  query compute is the claim's on its two examples (20 and 10); its product is a product
  of doubles, so that 100 coins at a rate of 0.29 give 28, where
  \<open>floor (100 * 0.29)\<close> is 29.
\<close>

theorem decay_row_never_written:
  "applyDecayToSession store_faults now uid s r st = Inl DbError
   \<and> snd (processUserDecay store_faults now uid decayRules st) = st
   \<and> executeDecayProcess store_faults now st = st
   \<and> snd (triggerDecay store_faults now userIdOpt st) = st
   \<and> decayAmount (s\<lparr>total_coins := 100\<rparr>) (r\<lparr>decay_type := Percentage, decay_rate := 2 / 10\<rparr>) = 20
   \<and> decayAmount (s\<lparr>total_coins := 10\<rparr>) (r\<lparr>decay_type := Fixed, decay_rate := 50\<rparr>) = 10
   \<and> decayAmount (s\<lparr>total_coins := 100\<rparr>) (r\<lparr>decay_type := Percentage, decay_rate := 29 / 100\<rparr>) = 28"
proof (intro conjI)
  show "applyDecayToSession store_faults now uid s r st = Inl DbError"
    by (simp add: applyDecayToSession_rejected store_rejects)
  show "snd (processUserDecay store_faults now uid decayRules st) = st"
    by (rule processUserDecay_store)
  show "executeDecayProcess store_faults now st = st"
    by (rule executeDecayProcess_store)
  show "snd (triggerDecay store_faults now userIdOpt st) = st"
    by (simp add: triggerDecay_def processUserDecay_store executeDecayProcess_store
        split: option.splits)
  show "decayAmount (s\<lparr>total_coins := 100\<rparr>)
          (r\<lparr>decay_type := Percentage, decay_rate := 2 / 10\<rparr>) = 20"
    by (rule decay_amount_examples)
  show "decayAmount (s\<lparr>total_coins := 10\<rparr>) (r\<lparr>decay_type := Fixed, decay_rate := 50\<rparr>) = 10"
    by (rule decay_amount_examples)
  show "decayAmount (s\<lparr>total_coins := 100\<rparr>)
          (r\<lparr>decay_type := Percentage, decay_rate := 29 / 100\<rparr>) = 28"
    by (rule decay_amount_examples)
qed

section \<open>Ledger store: where the balance is checked\<close>

text \<open>
  Claim C10. \<open>recordCoinTransaction\<close> appends its row for every change type and every
  amount, with \<open>balance_after\<close> the balance plus the amount; only \<open>redeemReward\<close> compares
  the balance with the cost first, throwing (and writing nothing) exactly when the
  balance is below the cost; \<open>adjustCoins\<close> records a negative amount as it is, so its
  row has a negative \<open>balance_after\<close> whenever the balance plus the amount is negative;
  a decay row is written with the balance minus the decay amount, whatever the balance.
\<close>

theorem no_balance_check:
  "coin_ledger (recordCoinTransaction u a k src ref md st) =
     coin_ledger st @ [\<lparr>user_id = u, change_type = k, amount = a,
                        balance_after = getCurrentBalance u st + a, source_type = src,
                        reference_id = ref, metadata = md\<rparr>]
   \<and> (if getCurrentBalance u st < cost
       then redeemReward u rw cost st = Inl InsufficientBalance
       else \<exists>st'. redeemReward u rw cost st = Inr (True, st')
              \<and> coin_ledger st' =
                  coin_ledger st @ [\<lparr>user_id = u, change_type = Redeemed, amount = - cost,
                                     balance_after = getCurrentBalance u st - cost,
                                     source_type = ''reward'', reference_id = rw,
                                     metadata = [(''rewardId'', JStr rw)]\<rparr>])
   \<and> coin_ledger (adjustCoins u a adminId st) =
       coin_ledger st @ [\<lparr>user_id = u, change_type = (if a > 0 then Bonus else Penalty),
                          amount = a, balance_after = getCurrentBalance u st + a,
                          source_type = ''admin_adjustment'', reference_id = adminId,
                          metadata = [(''adminId'', JStr adminId)]\<rparr>]
   \<and> (getCurrentBalance u st + a < 0 \<longrightarrow>
        balance_after (last (coin_ledger (adjustCoins u a adminId st))) < 0)
   \<and> (existingDecay u (session_id s) (rule_id r) st = None \<and> \<not> fails u (rule_id r) (session_id s)
        \<and> decayAmount s r > 0 \<longrightarrow>
        (\<exists>st'. applyDecayToSession fails now u s r st = Inr st'
           \<and> balance_after (last (coin_ledger st')) = getCurrentBalance u st - decayAmount s r))"
  by (simp add: coin_ledger_record redeemReward_def adjustCoins_def Let_def
      applyDecayToSession_def)

theorem no_balance_check_witness:
  "redeemReward ''user-1'' ''reward-1'' 5 ex_db = Inl InsufficientBalance
   \<and> map balance_after (coin_ledger (adjustCoins ''user-1'' (- 5) ''admin-1'' ex_db)) = [- 5]
   \<and> balance_after (last (coin_ledger (adjustCoins ''user-1'' (- 5) ''admin-1'' ex_db))) < 0
   \<and> (\<exists>st'. applyDecayToSession no_faults 1703000000000 ''user-1'' ex_session ex_rule ex_db = Inr st'
         \<and> balance_after (last (coin_ledger st')) = - 20)"
proof -
  have b: "getCurrentBalance ''user-1'' ex_db = 0"
    by (simp add: getCurrentBalance_def ex_db_def fresh_db_def)
  have c: "existingDecay ''user-1'' (session_id ex_session) (rule_id ex_rule) ex_db = None
           \<and> \<not> no_faults ''user-1'' (rule_id ex_rule) (session_id ex_session)"
    by (simp add: existingDecay_def ex_db_def fresh_db_def no_faults_def)
  have d: "decayAmount ex_session ex_rule = 20"
    by code_simp
  from no_balance_check [where u = "''user-1''" and a = "- 5" and k = Penalty
      and src = "''admin_adjustment''" and ref = "''admin-1''"
      and md = "[(''adminId'', JStr ''admin-1'')]" and st = ex_db and cost = 5
      and rw = "''reward-1''" and adminId = "''admin-1''" and s = ex_session and r = ex_rule
      and fails = no_faults and now = 1703000000000] b c d
  show ?thesis by (simp add: ex_db_def fresh_db_def)
qed

section \<open>Reward calculator: the streak bonus\<close>

lemma sorted_le_last:
  "sorted (zs :: int list) \<Longrightarrow> z \<in> set zs \<Longrightarrow> z \<le> last zs"
  by (induction zs) auto

lemma consecutive_loop_newer_head:
  "d \<ge> today \<Longrightarrow> consecutive_loop today (d # ds) 1 = 1"
  by simp

lemma recentSessionDates_head:
  assumes "s \<in> set (learning_sessions st)" and "s_user_id s = uid"
      and "s_status s = Completed"
  shows "\<exists>d ds. recentSessionDates uid st = d # ds \<and> s_session_date s \<le> d"
proof -
  define zs where "zs = sort (remdups (map s_session_date
       (filter (\<lambda>s. s_user_id s = uid \<and> s_status s = Completed) (learning_sessions st))))"
  have mem: "s_session_date s \<in> set zs" using assms by (auto simp add: zs_def)
  have srt: "sorted zs" by (simp add: zs_def)
  have le: "s_session_date s \<le> last zs" by (rule sorted_le_last [OF srt mem])
  from mem obtain ds where r: "rev zs = last zs # ds"
    by (cases zs rule: rev_cases) auto
  have t: "take 30 (last zs # ds) = last zs # take 29 ds" by simp
  have "recentSessionDates uid st = take 30 (rev zs)"
    by (simp add: recentSessionDates_def zs_def)
  then have "recentSessionDates uid st = last zs # take 29 ds" unfolding r t .
  with le show ?thesis by blast
qed

text \<open>
  As long as no completed session of the user is stored for the session date or a later
  one, the loop counts the streak of the specification (up to the 31 that 30 rows allow),
  and the bonus is the one of the claim.
\<close>

lemma consecutive_loop_shift:
  "consecutive_loop today ds (c + k) = k + consecutive_loop (today - k) ds c"
proof (induction ds arbitrary: c)
  case Nil
  then show ?case by simp
next
  case (Cons d ds)
  from Cons [of "c + 1"] show ?case by (simp add: algebra_simps)
qed

lemma consecutive_loop_ge: "c \<le> consecutive_loop today ds c"
proof (induction ds arbitrary: c)
  case Nil
  then show ?case by simp
next
  case (Cons d ds)
  from Cons [of "c + 1"] show ?case by simp
qed

lemma consecutive_loop_take:
  "consecutive_loop today (take k ds) c = min (c + int k) (consecutive_loop today ds c)"
proof (induction ds arbitrary: k c)
  case Nil
  then show ?case by simp
next
  case (Cons d ds)
  show ?case
  proof (cases k)
    case 0
    then show ?thesis using consecutive_loop_ge [of c today "d # ds"] by simp
  next
    case (Suc j)
    then show ?thesis using Cons [of j "c + 1"] by (simp add: algebra_simps)
  qed
qed

lemma days_back_set:
  "set ds = set ds' \<Longrightarrow> days_back ds d n = days_back ds' d n"
  by (induction n arbitrary: d) simp_all

lemma days_back_drop_newer:
  "d < x \<Longrightarrow> days_back (x # xs) d n = days_back xs d n"
  by (induction n arbitrary: d) simp_all

lemma days_back_none:
  "d \<notin> set ds \<Longrightarrow> days_back ds d n = 0"
  by (cases n) simp_all

lemma consecutive_loop_days_back:
  "sorted_wrt (>) ds \<Longrightarrow> \<forall>x \<in> set ds. x \<le> d \<Longrightarrow> length ds \<le> n \<Longrightarrow>
     consecutive_loop (d + 1) ds 1 = 1 + days_back ds d n"
proof (induction ds arbitrary: d n)
  case Nil
  then show ?case by (simp add: days_back_none)
next
  case (Cons x xs)
  show ?case
  proof (cases "x = d")
    case False
    with Cons.prems have "d \<notin> set (x # xs)" by auto
    with False show ?thesis by (simp add: days_back_none)
  next
    case True
    from Cons.prems obtain m where n: "n = Suc m" by (cases n) auto
    from Cons.prems True have a: "sorted_wrt (>) xs" "\<forall>y \<in> set xs. y \<le> d - 1" "length xs \<le> m"
      using n by auto
    from Cons.IH [OF a] have ih: "consecutive_loop d xs 1 = 1 + days_back xs (d - 1) m" by simp
    have "consecutive_loop (d + 1) (x # xs) 1 = consecutive_loop (d + 1) xs (1 + 1)"
      using True by simp
    also have "\<dots> = 1 + consecutive_loop d xs 1"
      using consecutive_loop_shift [of "d + 1" xs 1 1] by simp
    finally show ?thesis
      using ih True n by (simp add: days_back_drop_newer)
  qed
qed

lemma streak_when_date_not_stored:
  assumes "\<forall>s \<in> set (learning_sessions st).
             s_user_id s = uid \<and> s_status s = Completed \<longrightarrow> s_session_date s < currentDate"
  shows "getConsecutiveLearningDays uid currentDate st
           = min 31 (streak_ending_at uid currentDate st)"
proof -
  define S where "S = map s_session_date
       (filter (\<lambda>s. s_user_id s = uid \<and> s_status s = Completed) (learning_sessions st))"
  define ds where "ds = rev (sort (remdups S))"
  have srt: "sorted_wrt (>) ds"
  proof -
    have "sorted_wrt (<) (sort (remdups S))" by (simp add: strict_sorted_iff)
    then show ?thesis by (simp add: ds_def sorted_wrt_rev)
  qed
  have st_eq: "set ds = set S" by (simp add: ds_def)
  from assms have le: "\<forall>x \<in> set ds. x \<le> currentDate - 1" by (auto simp add: st_eq S_def)
  have len: "length ds \<le> length S"
    by (simp add: ds_def)
  from consecutive_loop_days_back [OF srt le len]
  have full: "consecutive_loop currentDate ds 1 = 1 + days_back S (currentDate - 1) (length S)"
    using days_back_set [OF st_eq] by simp
  have code: "getConsecutiveLearningDays uid currentDate st = consecutive_loop currentDate (take 30 ds) 1"
    by (simp add: getConsecutiveLearningDays_def recentSessionDates_def ds_def S_def Let_def)
  have spec: "streak_ending_at uid currentDate st = 1 + days_back S (currentDate - 1) (length S)"
    by (simp add: streak_ending_at_def S_def Let_def)
  show ?thesis by (simp add: code spec consecutive_loop_take full)
qed

lemma streak_bonus_when_date_not_stored:
  assumes "\<forall>s \<in> set (learning_sessions st).
             s_user_id s = uid \<and> s_status s = Completed \<longrightarrow> s_session_date s < currentDate"
  shows "bonus_amount (calculateConsecutiveBonus uid currentDate st)
           = (if streak_ending_at uid currentDate st \<ge> 7 then 10
              else if streak_ending_at uid currentDate st \<ge> 3 then 5 else 0)"
  by (simp add: calculateConsecutiveBonus_def Let_def streak_when_date_not_stored [OF assms])

text \<open>
  Claim C9 (the streak bonus is 10 from a streak of 7 days, 5 from 3 days, else 0, the
  streak being the user's consecutive days ending at the session date). The tiers are
  those of \<open>calculateConsecutiveBonus\<close>, but the count it is given is not the streak
  once a completed session of the user is stored for the session date or a later one:
  the newest stored date then differs from the day before the session date, the loop
  stops at its first row, the count is 1 and the bonus 0. The instance below it has the
  user's sessions on seven days in a row, the last on the session date: a streak of 7.
\<close>

theorem streak_lost_when_date_is_stored:
  assumes "s \<in> set (learning_sessions st)" and "s_user_id s = uid"
      and "s_status s = Completed" and "currentDate \<le> s_session_date s"
  shows "getConsecutiveLearningDays uid currentDate st = 1
       \<and> bonus_amount (calculateConsecutiveBonus uid currentDate st) = 0"
proof -
  from recentSessionDates_head [OF assms(1-3)] obtain d ds
    where r: "recentSessionDates uid st = d # ds" and le: "s_session_date s \<le> d" by blast
  from le assms(4) have "d \<noteq> currentDate - 1" by simp
  with r have "getConsecutiveLearningDays uid currentDate st = 1"
    by (simp add: getConsecutiveLearningDays_def)
  then show ?thesis by (simp add: calculateConsecutiveBonus_def)
qed

theorem streak_lost_when_date_is_stored_witness:
  "getConsecutiveLearningDays ''user-1'' 19737 ex_db_week = 1
   \<and> bonus_amount (calculateConsecutiveBonus ''user-1'' 19737 ex_db_week) = 0
   \<and> streak_ending_at ''user-1'' 19737 ex_db_week = 7"
proof -
  have m: "ex_stored ''g'' 19737 \<in> set (learning_sessions ex_db_week)"
    by (simp add: ex_db_week_def fresh_db_def)
  have s: "streak_ending_at ''user-1'' 19737 ex_db_week = 7"
    by (simp add: streak_ending_at_def ex_db_week_def fresh_db_def ex_stored_def ex_stored_for_def eval_nat_numeral)
  from streak_lost_when_date_is_stored [OF m, of "''user-1''" 19737] s show ?thesis
    by (simp add: ex_stored_def ex_stored_for_def)
qed

section \<open>Reward calculator: the daily-goal bonus\<close>

lemma daily_goal_bonus_by_count:
  "bonus_amount (calculateDailyGoalBonus uid d st) = (if dailySessionCount uid d st \<ge> 3 then 15 else 0)"
  by (simp add: calculateDailyGoalBonus_def Let_def)

text \<open>
  Claim C5 (the daily-goal bonus of 15 goes to the 3rd and later completed session of a
  user on a date, not to the 2nd). \<open>calculateDailyGoalBonus\<close> grants it when at least 3
  completed sessions are stored for the date at the moment of the call.
  \<open>LearningSessionModel.create\<close> calculates twice. With two sessions stored for the date,
  the first calculation (before the insert) counts 2: the coins stored on the third
  session's row, 102, have no daily-goal bonus. The second calculation (after the insert,
  inside \<open>processSessionReward\<close>) counts 3: the ledger receives 117 = 102 + 15, and the
  bonus of 15 once more as a row of its own.
\<close>

theorem daily_goal_third_session:
  "dailySessionCount ''user-1'' 19737 ex_db_two = 2
   \<and> bonus_amount (calculateDailyGoalBonus ''user-1'' 19737 ex_db_two) = 0
   \<and> (\<exists>row st'. create ''s3'' 1705312800000 [] ex_create ex_db_two = (Inr row, st')
         \<and> s_total_coins row = 102
         \<and> dailySessionCount ''user-1'' 19737 st' = 3
         \<and> bonus_amount (calculateDailyGoalBonus ''user-1'' 19737 st') = 15
         \<and> map (\<lambda>e. (change_type e, amount e)) (coin_ledger st') = [(Earned, 117), (Bonus, 15)])"
  by (simp add: create_def calculateCoins_def calculation_input_def ex_create_def ex_db_two_def
      fresh_db_def ex_stored_def ex_stored_for_def ex_task_def ex_difficulty_def Let_def
      coins_of_ex_create FOCUS_COIN_RATE_def calculateBonusCoins_def calculateConsecutiveBonus_def
      getConsecutiveLearningDays_def recentSessionDates_def calculateFirstTimeBonus_def
      calculateDifficultyBonus_def label_hard_def label_extreme_def calculateDailyGoalBonus_def
      dailySessionCount_def calculateWeekendBonus_def getDay_def insert_session_def
      processSessionReward_def coin_ledger_record)

section \<open>Scheduler: the hourly job\<close>



section \<open>Decay engine: the projection\<close>






section \<open>Ledger store: the rows of one user\<close>

lemma find_user_filter:
  "find (\<lambda>e. user_id e = v \<and> Q e) (filter (\<lambda>e. user_id e = v) L) = find (\<lambda>e. user_id e = v \<and> Q e) L"
  by (induction L) auto

lemma getCurrentBalance_user_entries:
  "getCurrentBalance v st =
     (case rev (user_entries v st) of [] \<Rightarrow> 0 | e # _ \<Rightarrow> or_zero (balance_after e))"
  by (simp add: getCurrentBalance_def user_entries_def)

lemma existingDecay_user_entries:
  "existingDecay v sid rid st =
     find (\<lambda>e. user_id e = v \<and> change_type e = Decayed \<and> reference_id e = sid
                \<and> meta_text (metadata e) ''rule_id'' = Some rid) (user_entries v st)"
  by (simp add: existingDecay_def user_entries_def find_user_filter)

lemma user_entries_record:
  "user_entries v (recordCoinTransaction u a k src ref md st) =
     (if u = v
      then user_entries v st @
             [\<lparr>user_id = u, change_type = k, amount = a,
               balance_after = getCurrentBalance u st + a, source_type = src,
               reference_id = ref, metadata = md\<rparr>]
      else user_entries v st)"
  by (simp add: user_entries_def coin_ledger_record)

section \<open>Ledger store: the balance trail\<close>

lemma balance_trail_append:
  "balance_trail p (es @ [e]) =
     (balance_trail p es
      \<and> balance_after e = (case rev es of [] \<Rightarrow> p | l # _ \<Rightarrow> balance_after l) + amount e)"
  by (induction es arbitrary: p) (auto split: list.splits)

lemma balance_trail_sum:
  "balance_trail p es \<Longrightarrow>
     (case rev es of [] \<Rightarrow> p | l # _ \<Rightarrow> balance_after l) = p + sum_list (map amount es)"
proof (induction es rule: rev_induct)
  case Nil
  then show ?case by simp
next
  case (snoc e es)
  then show ?case by (simp add: balance_trail_append)
qed

lemma or_zero_id [simp]: "or_zero x = x"
  by (simp add: or_zero_def)

lemma balance_is_sum:
  "balance_trail 0 (user_entries v st) \<Longrightarrow>
     getCurrentBalance v st = sum_list (map amount (user_entries v st))"
  using balance_trail_sum [of 0 "user_entries v st"]
  by (simp add: getCurrentBalance_user_entries split: list.splits)

lemma balance_trail_record:
  "balance_trail 0 (user_entries v st) \<Longrightarrow>
     balance_trail 0 (user_entries v (recordCoinTransaction u a k src ref md st))"
  by (simp add: user_entries_record balance_trail_append getCurrentBalance_user_entries
      split: list.splits)

lemma balance_trail_appended:
  "appended K st st' \<Longrightarrow> balance_trail 0 (user_entries v st) \<Longrightarrow>
     balance_trail 0 (user_entries v st')"
  by (induction rule: appended.induct) (simp_all add: balance_trail_record)

lemma appended_trans:
  "appended K b c \<Longrightarrow> appended K a b \<Longrightarrow> appended K a c"
  by (induction rule: appended.induct) (auto intro: appended.intros)

lemma appended_one:
  "K k \<Longrightarrow> appended K st (recordCoinTransaction u a k src ref md st)"
  by (rule appended_record [OF appended_none])

lemma appended_tables:
  "appended K st st' \<Longrightarrow>
     learning_sessions st' = learning_sessions st \<and> users st' = users st
     \<and> task_definitions st' = task_definitions st \<and> difficulties st' = difficulties st
     \<and> coin_decay_rules st' = coin_decay_rules st"
  by (induction rule: appended.induct) simp_all

text \<open>Every operation of the engine reaches the ledger through \<open>recordCoinTransaction\<close>.\<close>

lemma redeemReward_appended:
  "K Redeemed \<Longrightarrow> redeemReward u rw c st = Inr (ok, st') \<Longrightarrow> appended K st st'"
  by (auto simp add: redeemReward_def Let_def appended_one split: if_splits)

lemma adjustCoins_appended:
  "K Bonus \<Longrightarrow> K Penalty \<Longrightarrow> appended K st (adjustCoins u a adm st)"
  by (simp add: adjustCoins_def Let_def appended_one)

lemma processSessionReward_appended:
  "K Earned \<Longrightarrow> K Bonus \<Longrightarrow> processSessionReward sid inp st = Inr st' \<Longrightarrow> appended K st st'"
  by (auto simp add: processSessionReward_def Let_def split: sum.splits if_splits
      intro!: appended_record appended_none)

lemma awardAchievements_appended:
  "K Bonus \<Longrightarrow> appended K st (awardAchievements u as st)"
proof (induction as arbitrary: st)
  case Nil
  then show ?case by (simp add: appended_none)
next
  case (Cons a as)
  obtain aid pts where a: "a = (aid, pts)" by (cases a)
  show ?case
  proof (cases "pts > 0")
    case True
    from Cons have "appended K (recordCoinTransaction u pts Bonus ''achievement'' aid
        [(''achievement_id'', JStr aid)] st)
      (awardAchievements u as (recordCoinTransaction u pts Bonus ''achievement'' aid
        [(''achievement_id'', JStr aid)] st))" by simp
    from appended_trans [OF this appended_one [where K = K, OF Cons.prems]]
    show ?thesis using a True by simp
  next
    case False
    then show ?thesis using a Cons by simp
  qed
qed

lemma applyDecayToSession_appended:
  "K Decayed \<Longrightarrow> applyDecayToSession F now u s r st = Inr st' \<Longrightarrow> appended K st st'"
  by (auto simp add: applyDecayToSession_def Let_def appended_one appended_none
      split: if_splits option.splits)

lemma decay_sessions_loop_appended:
  "K Decayed \<Longrightarrow> appended K st (snd (decay_sessions_loop F now u r ss st))"
proof (induction ss arbitrary: st)
  case Nil
  then show ?case by (simp add: appended_none)
next
  case (Cons s ss)
  show ?case
  proof (cases "getDaysSince now (session_date s) \<ge> threshold_days r")
    case False
    then show ?thesis using Cons by simp
  next
    case True
    show ?thesis
    proof (cases "applyDecayToSession F now u s r st")
      case (Inl e)
      then show ?thesis using True by (simp add: appended_none)
    next
      case (Inr st')
      from applyDecayToSession_appended [where K = K, OF Cons.prems Inr] Cons.IH [OF Cons.prems, of st']
      show ?thesis using True Inr by (simp add: appended_trans)
    qed
  qed
qed

lemma decay_rules_loop_appended:
  "K Decayed \<Longrightarrow> appended K st (snd (decay_rules_loop F now u us rs st))"
proof (induction rs arbitrary: st)
  case Nil
  then show ?case by (simp add: appended_none)
next
  case (Cons r rs)
  obtain err st' where l: "decay_sessions_loop F now u r (filterSessionsByRule us r) st = (err, st')"
    by (cases "decay_sessions_loop F now u r (filterSessionsByRule us r) st")
  from decay_sessions_loop_appended [where K = K and st = st and F = F and now = now and u = u
      and r = r and ss = "filterSessionsByRule us r", OF Cons.prems] l
  have a: "appended K st st'" by simp
  show ?case
  proof (cases err)
    case None
    from appended_trans [OF Cons.IH [OF Cons.prems, of st'] a] show ?thesis using l None by simp
  next
    case (Some e)
    with a l show ?thesis by simp
  qed
qed

lemma processUserDecay_appended:
  "K Decayed \<Longrightarrow> appended K st (snd (processUserDecay F now u rs st))"
  by (simp add: processUserDecay_def decay_rules_loop_appended)

lemma decay_users_loop_appended:
  "K Decayed \<Longrightarrow> appended K st (decay_users_loop F now rs us st)"
proof (induction us arbitrary: st)
  case Nil
  then show ?case by (simp add: appended_none)
next
  case (Cons u us)
  from appended_trans [OF Cons.IH [OF Cons.prems] processUserDecay_appended [where K = K, OF Cons.prems]]
  show ?case by simp
qed

lemma executeDecayProcess_appended:
  "K Decayed \<Longrightarrow> appended K st (executeDecayProcess F now st)"
  by (simp add: executeDecayProcess_def Let_def decay_users_loop_appended)

lemma triggerDecay_appended:
  "K Decayed \<Longrightarrow> appended K st (snd (triggerDecay F now uo st))"
  by (cases uo) (simp_all add: triggerDecay_def processUserDecay_appended executeDecayProcess_appended)

lemma hourlyJob_appended:
  "K Decayed \<Longrightarrow> appended K st (snd (hourlyJob G F now st))"
  by (simp add: hourlyJob_def shouldRunHourlyDecay_def executeDecayProcess_appended appended_none
      split: option.splits)

lemma create_trail:
  assumes "balance_trail 0 (user_entries v st)"
  shows "balance_trail 0 (user_entries v (snd (create sid now as d st)))"
proof (cases "calculateCoins (calculation_input d) st")
  case (Inl e)
  then show ?thesis using assms by (simp add: create_def)
next
  case (Inr res)
  show ?thesis
  proof (cases "s_session_id \<lparr>s_session_id = sid, s_user_id = cs_user_id d,
                     s_task_id = cs_task_id d, s_difficulty_id = cs_difficulty_id d,
                     s_session_date = cs_session_date d,
                     s_focus_time_minutes = cs_focus_time_minutes d,
                     s_result_quantity = cs_result_quantity d,
                     s_focus_coins = focusCoins res, s_result_coins = resultCoins res,
                     s_total_coins = totalCoins res,
                     s_status = Completed, s_created_at = now\<rparr>
                 \<in> set (map s_session_id (learning_sessions st))")
    case True
    then show ?thesis using assms Inr by (simp add: create_def insert_session_def)
  next
    case False
    let ?st1 = "st\<lparr>learning_sessions := learning_sessions st @
                     [\<lparr>s_session_id = sid, s_user_id = cs_user_id d,
                     s_task_id = cs_task_id d, s_difficulty_id = cs_difficulty_id d,
                     s_session_date = cs_session_date d,
                     s_focus_time_minutes = cs_focus_time_minutes d,
                     s_result_quantity = cs_result_quantity d,
                     s_focus_coins = focusCoins res, s_result_coins = resultCoins res,
                     s_total_coins = totalCoins res,
                     s_status = Completed, s_created_at = now\<rparr>]\<rparr>"
    have t1: "balance_trail 0 (user_entries v ?st1)" using assms by (simp add: user_entries_def)
    show ?thesis
    proof (cases "processSessionReward sid (calculation_input d) ?st1")
      case (Inl e)
      then show ?thesis using t1 Inr False by (simp add: create_def insert_session_def)
    next
      case r: (Inr st2)
      have "appended (\<lambda>k. True) ?st1 st2"
        by (rule processSessionReward_appended [where K = "\<lambda>k. True", OF _ _ r]) simp_all
      moreover have "appended (\<lambda>k. True) st2 (awardAchievements (cs_user_id d) as st2)"
        by (rule awardAchievements_appended) simp
      ultimately have "balance_trail 0 (user_entries v (awardAchievements (cs_user_id d) as st2))"
        using t1 by (blast intro: balance_trail_appended)
      then show ?thesis using Inr False r by (simp add: create_def insert_session_def)
    qed
  qed
qed

lemma serve_trail:
  assumes "balance_trail 0 (user_entries v st)"
  shows "balance_trail 0 (user_entries v (serve r st))"
proof (cases r)
  case (CreateSession sid now as d)
  then show ?thesis using create_trail [OF assms] by simp
next
  case (RedeemReward u rw c)
  show ?thesis
  proof (cases "redeemReward u rw c st")
    case (Inl e)
    then show ?thesis using assms RedeemReward by simp
  next
    case (Inr p)
    obtain ok st' where p: "p = (ok, st')" by (cases p)
    have "appended (\<lambda>k. True) st st'"
      by (rule redeemReward_appended [where K = "\<lambda>k. True", OF _ Inr [unfolded p]]) simp
    from balance_trail_appended [OF this assms] show ?thesis using RedeemReward Inr p by simp
  qed
next
  case (AdjustCoins u a adm)
  have "appended (\<lambda>k. True) st (adjustCoins u a adm st)"
    by (rule adjustCoins_appended) simp_all
  from balance_trail_appended [OF this assms] show ?thesis using AdjustCoins by simp
next
  case (DailyJob F now)
  have "appended (\<lambda>k. True) st (executeDecayProcess F now st)"
    by (rule executeDecayProcess_appended) simp
  from balance_trail_appended [OF this assms] show ?thesis using DailyJob by (simp add: dailyJob_def)
next
  case (HourlyJob G F now)
  have "appended (\<lambda>k. True) st (snd (hourlyJob G F now st))"
    by (rule hourlyJob_appended) simp
  from balance_trail_appended [OF this assms] show ?thesis using HourlyJob by simp
next
  case (TriggerDecay F now uo)
  have "appended (\<lambda>k. True) st (snd (triggerDecay F now uo st))"
    by (rule triggerDecay_appended) simp
  from balance_trail_appended [OF this assms] show ?thesis using TriggerDecay by simp
next
  case (PredictDecay F now u days)
  then show ?thesis using assms by (simp add: predictDecay_def)
next
  case (EditRules rs)
  then show ?thesis using assms by (simp add: user_entries_def)
next
  case (EditUsers us)
  then show ?thesis using assms by (simp add: user_entries_def)
next
  case (EditCatalogue ts ds)
  then show ?thesis using assms by (simp add: user_entries_def)
qed

lemma serve_all_trail:
  "balance_trail 0 (user_entries v st) \<Longrightarrow> balance_trail 0 (user_entries v (serve_all rs st))"
  by (induction rs arbitrary: st) (simp_all add: serve_trail)

text \<open>
  Claim C1. Starting from an empty ledger and serving any sequence of requests, one after
  the other, each user's rows form a balance trail from 0 (every \<open>balance_after\<close> is the
  previous one plus the row's amount), and the sum of the user's amounts is what
  \<open>getCurrentBalance\<close> returns. Requests are served one at a time: two writers
  interleaved inside \<open>recordCoinTransaction\<close> are outside this model.
\<close>

theorem balance_trail_exact:
  assumes "coin_ledger st0 = []"
  shows "balance_trail 0 (user_entries uid (serve_all reqs st0))
       \<and> sum_list (map amount (user_entries uid (serve_all reqs st0)))
           = getCurrentBalance uid (serve_all reqs st0)"
proof -
  from assms have "balance_trail 0 (user_entries uid st0)" by (simp add: user_entries_def)
  then have "balance_trail 0 (user_entries uid (serve_all reqs st0))" by (rule serve_all_trail)
  then show ?thesis by (simp add: balance_is_sum)
qed

theorem balance_trail_exact_witness:
  "map (\<lambda>e. (amount e, balance_after e)) (user_entries ''user-1'' (serve_all ex_requests ex_db_two))
     = [(117, 117), (15, 132), (50, 182), (- 300, - 118)]
   \<and> balance_trail 0 (user_entries ''user-1'' (serve_all ex_requests ex_db_two))
   \<and> sum_list (map amount (user_entries ''user-1'' (serve_all ex_requests ex_db_two)))
       = getCurrentBalance ''user-1'' (serve_all ex_requests ex_db_two)"
proof -
  have a: "coin_ledger ex_db_two = []" by (simp add: ex_db_two_def fresh_db_def)
  have b: "map (\<lambda>e. (amount e, balance_after e))
             (user_entries ''user-1'' (serve_all ex_requests ex_db_two))
     = [(117, 117), (15, 132), (50, 182), (- 300, - 118)]" by code_simp
  from balance_trail_exact [OF a, of "''user-1''" ex_requests] b show ?thesis by simp
qed

section \<open>Decay engine: what a failure interrupts\<close>

lemma upto_first_failure_append:
  "upto_first_failure bad (xs @ ys) =
     (if list_ex bad xs then upto_first_failure bad xs else xs @ upto_first_failure bad ys)"
  by (induction xs) simp_all

lemma applyDecayToSession_accepted:
  "\<not> fails uid (rule_id r) (session_id s) \<Longrightarrow> \<exists>st'. applyDecayToSession fails now uid s r st = Inr st'"
  by (simp add: applyDecayToSession_def Let_def split: option.splits)

lemma upto_first_failure_none:
  "\<not> list_ex bad xs \<Longrightarrow> upto_first_failure bad xs = xs"
  by (induction xs) simp_all

lemma decay_sessions_trace_eq:
  "decay_sessions_trace F now u r ss st =
     (decay_sessions_loop F now u r ss st,
      upto_first_failure (fails_on F)
        (map (\<lambda>session. (u, rule_id r, session_id session)) (due_sessions now r ss)))"
proof (induction ss arbitrary: st)
  case Nil
  then show ?case by (simp add: due_sessions_def)
next
  case (Cons s ss)
  show ?case
  proof (cases "getDaysSince now (session_date s) \<ge> threshold_days r")
    case False
    then show ?thesis using Cons [of st] by (simp add: due_sessions_def)
  next
    case due: True
    show ?thesis
    proof (cases "F u (rule_id r) (session_id s)")
      case True
      then show ?thesis using due
        by (simp add: applyDecayToSession_rejected due_sessions_def fails_on_def)
    next
      case False
      from applyDecayToSession_accepted [where fails = F, OF False]
      obtain st' where a: "applyDecayToSession F now u s r st = Inr st'" by blast
      show ?thesis using due False a Cons [of st']
        by (simp add: due_sessions_def fails_on_def)
    qed
  qed
qed

lemma decay_sessions_trace_loop:
  "fst (decay_sessions_trace F now u r ss st) = decay_sessions_loop F now u r ss st"
  by (simp add: decay_sessions_trace_eq)

lemma decay_sessions_trace_calls:
  "snd (decay_sessions_trace F now u r ss st) =
     upto_first_failure (fails_on F)
       (map (\<lambda>session. (u, rule_id r, session_id session)) (due_sessions now r ss))"
  by (simp add: decay_sessions_trace_eq)

lemma decay_sessions_loop_error:
  "fst (decay_sessions_loop F now u r ss st) =
     (if list_ex (fails_on F)
           (map (\<lambda>session. (u, rule_id r, session_id session)) (due_sessions now r ss))
      then Some DbError else None)"
proof (induction ss arbitrary: st)
  case Nil
  then show ?case by (simp add: due_sessions_def)
next
  case (Cons s ss)
  show ?case
  proof (cases "getDaysSince now (session_date s) \<ge> threshold_days r")
    case False
    then show ?thesis using Cons [of st] by (simp add: due_sessions_def)
  next
    case due: True
    show ?thesis
    proof (cases "F u (rule_id r) (session_id s)")
      case True
      then show ?thesis using due
        by (simp add: applyDecayToSession_rejected due_sessions_def fails_on_def)
    next
      case False
      from applyDecayToSession_accepted [where fails = F, OF False]
      obtain st' where a: "applyDecayToSession F now u s r st = Inr st'" by blast
      show ?thesis using due False a Cons [of st']
        by (simp add: due_sessions_def fails_on_def)
    qed
  qed
qed

lemma decay_rules_loop_error:
  "fst (decay_rules_loop F now u ss rs st) =
     (if list_ex (fails_on F)
           (concat (map (\<lambda>rule. map (\<lambda>session. (u, rule_id rule, session_id session))
                                  (due_sessions now rule (filterSessionsByRule ss rule))) rs))
      then Some DbError else None)"
proof (induction rs arbitrary: st)
  case Nil
  then show ?case by simp
next
  case (Cons r rs)
  obtain e st' where l: "decay_sessions_loop F now u r (filterSessionsByRule ss r) st = (e, st')"
    by (metis prod.exhaust)
  show ?case
  proof (cases "list_ex (fails_on F)
                  (map (\<lambda>session. (u, rule_id r, session_id session))
                     (due_sessions now r (filterSessionsByRule ss r)))")
    case True
    with l decay_sessions_loop_error [of F now u r "filterSessionsByRule ss r" st]
    have "e = Some DbError" by simp
    then show ?thesis using l True by simp
  next
    case False
    with l decay_sessions_loop_error [of F now u r "filterSessionsByRule ss r" st]
    have "e = None" by simp
    then show ?thesis using l False Cons [of st'] by simp
  qed
qed

lemma decay_rules_trace_eq:
  "decay_rules_trace F now u ss rs st =
     (decay_rules_loop F now u ss rs st,
      upto_first_failure (fails_on F)
        (concat (map (\<lambda>rule. map (\<lambda>session. (u, rule_id rule, session_id session))
                               (due_sessions now rule (filterSessionsByRule ss rule))) rs)))"
proof (induction rs arbitrary: st)
  case Nil
  then show ?case by simp
next
  case (Cons r rs)
  obtain e st' where l: "decay_sessions_loop F now u r (filterSessionsByRule ss r) st = (e, st')"
    by (metis prod.exhaust)
  show ?case
  proof (cases "list_ex (fails_on F)
                  (map (\<lambda>session. (u, rule_id r, session_id session))
                     (due_sessions now r (filterSessionsByRule ss r)))")
    case True
    with l decay_sessions_loop_error [of F now u r "filterSessionsByRule ss r" st]
    have "e = Some DbError" by simp
    then show ?thesis using l True
      by (simp add: decay_sessions_trace_eq upto_first_failure_append)
  next
    case False
    with l decay_sessions_loop_error [of F now u r "filterSessionsByRule ss r" st]
    have "e = None" by simp
    then show ?thesis using l False Cons [of st']
      by (simp add: decay_sessions_trace_eq upto_first_failure_append upto_first_failure_none)
  qed
qed

lemma processUserDecay_trace_eq:
  "processUserDecay_trace F now u rs st =
     (processUserDecay F now u rs st, upto_first_failure (fails_on F) (due_triples now u rs st))"
  by (simp add: processUserDecay_trace_def processUserDecay_def due_triples_def
      decay_rules_trace_eq)

lemma processUserDecay_error:
  "fst (processUserDecay F now u rs st) =
     (if list_ex (fails_on F) (due_triples now u rs st) then Some DbError else None)"
  using decay_rules_loop_error [of F now u "getUserSessionsForDecay now u st" rs st]
  by (simp add: processUserDecay_def due_triples_def)

lemma due_triples_appended:
  "appended K st st' \<Longrightarrow> due_triples now u rs st' = due_triples now u rs st"
  by (drule appended_tables)
     (simp add: due_triples_def getUserSessionsForDecay_def task_of_def)

lemma due_triples_appended_all:
  assumes "appended K st st'"
  shows "(\<lambda>u. G (due_triples now u rs st')) = (\<lambda>u. G (due_triples now u rs st))"
  using due_triples_appended [OF assms] by simp

lemma decay_users_trace_eq:
  "decay_users_trace F now rs us st =
     (decay_users_loop F now rs us st,
      \<lparr>calls = concat (map (\<lambda>u. upto_first_failure (fails_on F) (due_triples now u rs st)) us),
       logged = filter (\<lambda>u. list_ex (fails_on F) (due_triples now u rs st)) us\<rparr>)"
proof (induction us arbitrary: st)
  case Nil
  then show ?case by simp
next
  case (Cons u us)
  obtain e st' where p: "processUserDecay F now u rs st = (e, st')"
    by (metis prod.exhaust)
  have "appended (\<lambda>k. True) st (snd (processUserDecay F now u rs st))"
    by (rule processUserDecay_appended) simp
  then have a: "appended (\<lambda>k. True) st st'" using p by simp
  have e: "e = (if list_ex (fails_on F) (due_triples now u rs st) then Some DbError else None)"
    using processUserDecay_error [of F now u rs st] p by simp
  show ?case
    using p e Cons [of st'] due_triples_appended [OF a]
    by (simp add: processUserDecay_trace_eq)
qed

text \<open>
  Claim C4 (a failure on one (user, rule, session) triple does not keep the other
  triples of the cycle, those of the same user included, from being processed). The
  \<open>try\<close> is around a user's whole processing. In the example \<open>user-1\<close> has two due
  triples, (\<open>rule-1\<close>, \<open>session-1\<close>) and (\<open>rule-1\<close>, \<open>session-2\<close>); on a PostgreSQL store
  the cycle calls \<open>applyDecayToSession\<close> for one of them, logs the rejection for the user
  and goes on with the other user: the second triple of \<open>user-1\<close> is not processed. This
  is so in each of the 24 orders in which the rows of the example can be stored.
\<close>

theorem rejected_query_ends_user:
  "ex_db_decay \<in> set ex_decay_orders
   \<and> length ex_decay_orders = 24
   \<and> list_all (\<lambda>st.
         length (due_triples ex_now ''user-1'' (getActiveDecayRules st) st) = 2
         \<and> length (filter (\<lambda>(uid, rid, sid). uid = ''user-1'')
                      (calls (snd (executeDecayProcess_trace store_faults ex_now st)))) = 1
         \<and> set (logged (snd (executeDecayProcess_trace store_faults ex_now st)))
             = {''user-1'', ''user-2''}
         \<and> fst (executeDecayProcess_trace store_faults ex_now st) = st)
       ex_decay_orders"
  by code_simp

text \<open>
  Claim C4, amended: failures are isolated per user. For every outcome of the queries, a
  cycle calls \<open>applyDecayToSession\<close>, for each active user in turn, for the user's due
  triples up to and including the first one that fails; the triples after it, the
  remaining sessions of the rule and the remaining rules, are not processed. The error is
  logged once, for the user, and the cycle goes on with the next user.
\<close>

theorem decay_failure_ends_user:
  "fst (executeDecayProcess_trace fails now st) = executeDecayProcess fails now st
   \<and> calls (snd (executeDecayProcess_trace fails now st)) =
       concat (map (\<lambda>uid. upto_first_failure (fails_on fails)
                             (due_triples now uid (getActiveDecayRules st) st))
                 (getActiveUsers now st))
   \<and> logged (snd (executeDecayProcess_trace fails now st)) =
       filter (\<lambda>uid. list_ex (fails_on fails) (due_triples now uid (getActiveDecayRules st) st))
         (getActiveUsers now st)"
  by (simp add: executeDecayProcess_trace_def executeDecayProcess_def decay_users_trace_eq Let_def)

section \<open>Decay engine: at most one decay row per session and rule\<close>

lemma decay_wf_cong:
  "learning_sessions st' = learning_sessions st \<Longrightarrow> coin_ledger st' = coin_ledger st \<Longrightarrow>
     decay_wf st' = decay_wf st"
  by (simp add: decay_wf_def decay_rows_def session_of_user_def)

lemma session_of_user_cong:
  "learning_sessions st' = learning_sessions st \<Longrightarrow>
     session_of_user u sid st' = session_of_user u sid st"
  by (simp add: session_of_user_def)

lemma session_of_user_record [simp]:
  "session_of_user v sid (recordCoinTransaction u a k src ref md st) = session_of_user v sid st"
  by (simp add: session_of_user_def)

lemma decay_rows_record:
  "decay_rows sid rid (recordCoinTransaction u a k src ref md st) =
     decay_rows sid rid st @
       (if k = Decayed \<and> ref = sid \<and> meta_text md ''rule_id'' = Some rid
        then [\<lparr>user_id = u, change_type = k, amount = a,
               balance_after = getCurrentBalance u st + a, source_type = src,
               reference_id = ref, metadata = md\<rparr>]
        else [])"
  by (simp add: decay_rows_def coin_ledger_record)

lemma decay_wf_record_other:
  "k \<noteq> Decayed \<Longrightarrow> decay_wf st \<Longrightarrow> decay_wf (recordCoinTransaction u a k src ref md st)"
  by (auto simp add: decay_wf_def decay_rows_record coin_ledger_record list_all_iff)

lemma decay_wf_appended:
  "appended (\<lambda>k. k \<noteq> Decayed) st st' \<Longrightarrow> decay_wf st \<Longrightarrow> decay_wf st'"
  by (induction rule: appended.induct) (simp_all add: decay_wf_record_other)

lemma decay_wf_insert_session:
  "insert_session row st = Inr st1 \<Longrightarrow> decay_wf st \<Longrightarrow> decay_wf st1"
  by (auto simp add: insert_session_def decay_wf_def decay_rows_def session_of_user_def
      list_all_iff list_ex_iff split: if_splits)

lemma create_wf:
  assumes "decay_wf st"
  shows "decay_wf (snd (create sid now as d st))"
proof (cases "calculateCoins (calculation_input d) st")
  case (Inl e)
  then show ?thesis using assms by (simp add: create_def)
next
  case (Inr res)
  let ?row = "\<lparr>s_session_id = sid, s_user_id = cs_user_id d,
                     s_task_id = cs_task_id d, s_difficulty_id = cs_difficulty_id d,
                     s_session_date = cs_session_date d,
                     s_focus_time_minutes = cs_focus_time_minutes d,
                     s_result_quantity = cs_result_quantity d,
                     s_focus_coins = focusCoins res, s_result_coins = resultCoins res,
                     s_total_coins = totalCoins res,
                     s_status = Completed, s_created_at = now\<rparr>"
  show ?thesis
  proof (cases "insert_session ?row st")
    case (Inl e)
    then show ?thesis using assms Inr by (simp add: create_def)
  next
    case i: (Inr st1)
    from decay_wf_insert_session [OF i assms] have w1: "decay_wf st1" .
    show ?thesis
    proof (cases "processSessionReward sid (calculation_input d) st1")
      case (Inl e)
      then show ?thesis using w1 Inr i by (simp add: create_def)
    next
      case r: (Inr st2)
      have "appended (\<lambda>k. k \<noteq> Decayed) st1 st2"
        by (rule processSessionReward_appended [where K = "\<lambda>k. k \<noteq> Decayed", OF _ _ r]) simp_all
      moreover have "appended (\<lambda>k. k \<noteq> Decayed) st2 (awardAchievements (cs_user_id d) as st2)"
        by (rule awardAchievements_appended) simp
      ultimately have "decay_wf (awardAchievements (cs_user_id d) as st2)"
        using w1 by (blast intro: decay_wf_appended)
      then show ?thesis using Inr i r by (simp add: create_def)
    qed
  qed
qed

lemma session_id_owner:
  assumes "distinct (map s_session_id xs)"
      and "list_ex (\<lambda>s. s_session_id s = sid \<and> s_user_id s = u) xs"
      and "list_ex (\<lambda>s. s_session_id s = sid \<and> s_user_id s = v) xs"
  shows "u = v"
proof -
  from assms(2) obtain x where x: "x \<in> set xs" "s_session_id x = sid" "s_user_id x = u"
    by (auto simp add: list_ex_iff)
  from assms(3) obtain y where y: "y \<in> set xs" "s_session_id y = sid" "s_user_id y = v"
    by (auto simp add: list_ex_iff)
  from assms(1) have "inj_on s_session_id (set xs)" by (simp add: distinct_map)
  with x y have "x = y" by (auto dest: inj_onD)
  with x y show ?thesis by simp
qed

lemma decay_row_is_users:
  assumes "decay_wf st" and "session_of_user u sid st" and "e \<in> set (decay_rows sid rid st)"
  shows "user_id e = u"
proof -
  from assms(3) have e: "e \<in> set (coin_ledger st)" "change_type e = Decayed" "reference_id e = sid"
    by (simp_all add: decay_rows_def)
  with assms(1) have "session_of_user (user_id e) sid st"
    by (auto simp add: decay_wf_def list_all_iff)
  with assms(1,2) show ?thesis
    by (auto simp add: decay_wf_def session_of_user_def dest: session_id_owner)
qed

lemma existing_iff_rows:
  assumes "decay_wf st" and "session_of_user u sid st"
  shows "(existingDecay u sid rid st = None) = (decay_rows sid rid st = [])"
proof
  assume n: "existingDecay u sid rid st = None"
  show "decay_rows sid rid st = []"
  proof (rule ccontr)
    assume "decay_rows sid rid st \<noteq> []"
    then obtain e where e: "e \<in> set (decay_rows sid rid st)" by (cases "decay_rows sid rid st") auto
    from decay_row_is_users [OF assms e] have "user_id e = u" .
    with e n show False by (auto simp add: existingDecay_def decay_rows_def find_None_iff)
  qed
next
  assume "decay_rows sid rid st = []"
  then show "existingDecay u sid rid st = None"
    by (auto simp add: existingDecay_def decay_rows_def find_None_iff filter_empty_conv)
qed

lemma applyDecayToSession_wf:
  assumes "decay_wf st" and "session_of_user u (session_id s) st"
      and "applyDecayToSession F now u s r st = Inr st'"
  shows "decay_wf st'"
proof (cases "existingDecay u (session_id s) (rule_id r) st = None \<and> decayAmount s r > 0")
  case False
  with assms(1,3) show ?thesis
    by (auto simp add: applyDecayToSession_def Let_def split: if_splits option.splits)
next
  case True
  with existing_iff_rows [OF assms(1,2), of "rule_id r"]
  have none: "decay_rows (session_id s) (rule_id r) st = []" by simp
  from True assms(3) have st': "st' = recordCoinTransaction u (- decayAmount s r) Decayed
      ''session_decay'' (session_id s)
      [(''rule_id'', JStr (rule_id r)),
       (''session_date'', JNum (of_int (session_date s))),
       (''days_since_session'', JNum (of_int (getDaysSince now (session_date s)))),
       (''original_coins'', JNum (total_coins s)),
       (''decay_rate'', JNum (decay_rate r)),
       (''decay_type'', JStr (decay_type_name (decay_type r)))] st"
    by (auto simp add: applyDecayToSession_def Let_def split: if_splits)
  have len: "length (decay_rows sid rid st') \<le> 1" for sid rid
    using assms(1) none by (auto simp add: st' decay_rows_record decay_wf_def)
  from assms(1,2) have "distinct (map s_session_id (learning_sessions st'))
      \<and> list_all (\<lambda>e. if change_type e = Decayed
                       then session_of_user (user_id e) (reference_id e) st' else True)
                  (coin_ledger st')"
    by (auto simp add: st' decay_wf_def coin_ledger_record list_all_iff)
  with len show ?thesis by (simp add: decay_wf_def)
qed

lemma applyDecayToSession_sessions:
  "applyDecayToSession F now u s r st = Inr st' \<Longrightarrow> learning_sessions st' = learning_sessions st"
  by (auto simp add: applyDecayToSession_def Let_def split: if_splits option.splits)

lemma decay_sessions_loop_wf:
  assumes "decay_wf st" and "\<forall>s \<in> set ss. session_of_user u (session_id s) st"
  shows "decay_wf (snd (decay_sessions_loop F now u r ss st))"
  using assms
proof (induction ss arbitrary: st)
  case Nil
  then show ?case by simp
next
  case (Cons s ss)
  show ?case
  proof (cases "getDaysSince now (session_date s) \<ge> threshold_days r")
    case False
    then show ?thesis using Cons by simp
  next
    case True
    show ?thesis
    proof (cases "applyDecayToSession F now u s r st")
      case (Inl e)
      then show ?thesis using True Cons.prems by simp
    next
      case (Inr st')
      from Cons.prems have "session_of_user u (session_id s) st" by simp
      from applyDecayToSession_wf [OF Cons.prems(1) this Inr] have w: "decay_wf st'" .
      from applyDecayToSession_sessions [OF Inr] Cons.prems(2)
      have "\<forall>s \<in> set ss. session_of_user u (session_id s) st'"
        by (simp add: session_of_user_def)
      from Cons.IH [OF w this] show ?thesis using True Inr by simp
    qed
  qed
qed

lemma decay_sessions_loop_sessions:
  "learning_sessions (snd (decay_sessions_loop F now u r ss st)) = learning_sessions st"
  using appended_tables [OF decay_sessions_loop_appended [where K = "\<lambda>k. True"]] by simp

lemma decay_rules_loop_wf:
  assumes "decay_wf st" and "\<forall>s \<in> set us. session_of_user u (session_id s) st"
  shows "decay_wf (snd (decay_rules_loop F now u us rs st))"
  using assms
proof (induction rs arbitrary: st)
  case Nil
  then show ?case by simp
next
  case (Cons r rs)
  obtain err st' where l: "decay_sessions_loop F now u r (filterSessionsByRule us r) st = (err, st')"
    by (cases "decay_sessions_loop F now u r (filterSessionsByRule us r) st")
  from Cons.prems(2) have "\<forall>s \<in> set (filterSessionsByRule us r). session_of_user u (session_id s) st"
    by (simp add: filterSessionsByRule_def)
  from decay_sessions_loop_wf [OF Cons.prems(1) this, of F now r] l have w: "decay_wf st'" by simp
  from decay_sessions_loop_sessions [of F now u r "filterSessionsByRule us r" st] l Cons.prems(2)
  have o: "\<forall>s \<in> set us. session_of_user u (session_id s) st'"
    by (simp add: session_of_user_def)
  show ?case
  proof (cases err)
    case None
    from Cons.IH [OF w o] show ?thesis using l None by simp
  next
    case (Some e)
    with w l show ?thesis by simp
  qed
qed

lemma getUserSessionsForDecay_owner:
  "s \<in> set (getUserSessionsForDecay now u st) \<Longrightarrow> session_of_user u (session_id s) st"
  by (auto simp add: getUserSessionsForDecay_def session_of_user_def list_ex_iff Let_def)

lemma processUserDecay_wf:
  "decay_wf st \<Longrightarrow> decay_wf (snd (processUserDecay F now u rs st))"
  by (simp add: processUserDecay_def decay_rules_loop_wf getUserSessionsForDecay_owner)

lemma decay_users_loop_wf:
  "decay_wf st \<Longrightarrow> decay_wf (decay_users_loop F now rs us st)"
  by (induction us arbitrary: st) (simp_all add: processUserDecay_wf)

lemma executeDecayProcess_wf:
  "decay_wf st \<Longrightarrow> decay_wf (executeDecayProcess F now st)"
  by (simp add: executeDecayProcess_def Let_def decay_users_loop_wf)

lemma serve_wf:
  assumes "decay_wf st"
  shows "decay_wf (serve r st)"
proof (cases r)
  case (CreateSession sid now as d)
  then show ?thesis using create_wf [OF assms] by simp
next
  case (RedeemReward u rw c)
  show ?thesis
  proof (cases "redeemReward u rw c st")
    case (Inl e)
    then show ?thesis using assms RedeemReward by simp
  next
    case (Inr p)
    obtain ok st' where p: "p = (ok, st')" by (cases p)
    have "appended (\<lambda>k. k \<noteq> Decayed) st st'"
      by (rule redeemReward_appended [where K = "\<lambda>k. k \<noteq> Decayed", OF _ Inr [unfolded p]]) simp
    from decay_wf_appended [OF this assms] show ?thesis using RedeemReward Inr p by simp
  qed
next
  case (AdjustCoins u a adm)
  have "appended (\<lambda>k. k \<noteq> Decayed) st (adjustCoins u a adm st)"
    by (rule adjustCoins_appended) simp_all
  from decay_wf_appended [OF this assms] show ?thesis using AdjustCoins by simp
next
  case (DailyJob F now)
  then show ?thesis using assms by (simp add: dailyJob_def executeDecayProcess_wf)
next
  case (HourlyJob G F now)
  then show ?thesis using assms
    by (simp add: hourlyJob_def shouldRunHourlyDecay_def executeDecayProcess_wf split: option.splits)
next
  case (TriggerDecay F now uo)
  then show ?thesis using assms
    by (cases uo) (simp_all add: triggerDecay_def executeDecayProcess_wf processUserDecay_wf)
next
  case (PredictDecay F now u days)
  then show ?thesis using assms by (simp add: predictDecay_def)
next
  case (EditRules rs)
  then show ?thesis using assms decay_wf_cong [of "st\<lparr>coin_decay_rules := rs\<rparr>" st] by simp
next
  case (EditUsers us)
  then show ?thesis using assms decay_wf_cong [of "st\<lparr>users := us\<rparr>" st] by simp
next
  case (EditCatalogue ts ds)
  then show ?thesis
    using assms decay_wf_cong [of "st\<lparr>task_definitions := ts, difficulties := ds\<rparr>" st] by simp
qed

lemma serve_all_wf:
  "decay_wf st \<Longrightarrow> decay_wf (serve_all rs st)"
  by (induction rs arbitrary: st) (simp_all add: serve_wf)

lemma decay_sessions_loop_guarded:
  assumes "decay_wf st" and "session_of_user u (session_id s) st"
      and "getDaysSince now (session_date s) < threshold_days r
           \<or> decay_rows (session_id s) (rule_id r) st \<noteq> []"
  shows "snd (decay_sessions_loop F now u r [s] st) = st"
proof (cases "getDaysSince now (session_date s) < threshold_days r")
  case True
  then show ?thesis by simp
next
  case False
  with assms(3) have "decay_rows (session_id s) (rule_id r) st \<noteq> []" by simp
  with existing_iff_rows [OF assms(1,2), of "rule_id r"]
  obtain e where "existingDecay u (session_id s) (rule_id r) st = Some e" by auto
  then show ?thesis by (simp add: applyDecayToSession_def)
qed

text \<open>
  Claim C2. Starting from an empty ledger and distinct session ids, and serving any
  sequence of requests (daily and hourly jobs, manual triggers for one user or for all,
  with or without failures, among session creations, redemptions, adjustments and edits
  of the rules), no (session, rule) pair ever has more than one \<open>decayed\<close> row; and
  processing a pair of a user's session writes nothing when the session is younger than
  the rule's threshold or the pair already has its row.
\<close>

theorem decay_at_most_once:
  assumes "coin_ledger st0 = []" and "distinct (map s_session_id (learning_sessions st0))"
  shows "length (decay_rows sid rid (serve_all reqs st0)) \<le> 1
       \<and> (session_of_user uid (session_id s) (serve_all reqs st0)
           \<and> (getDaysSince now (session_date s) < threshold_days r
               \<or> decay_rows (session_id s) (rule_id r) (serve_all reqs st0) \<noteq> [])
          \<longrightarrow> snd (decay_sessions_loop fails now uid r [s] (serve_all reqs st0))
                = serve_all reqs st0)"
proof -
  from assms have "decay_wf st0" by (simp add: decay_wf_def decay_rows_def)
  then have w: "decay_wf (serve_all reqs st0)" by (rule serve_all_wf)
  then have "length (decay_rows sid rid (serve_all reqs st0)) \<le> 1" by (simp add: decay_wf_def)
  with decay_sessions_loop_guarded [OF w] show ?thesis by blast
qed

theorem decay_at_most_once_witness:
  "map (\<lambda>e. (user_id e, amount e)) (decay_rows ''session-1'' ''rule-1'' (serve_all ex_cycles ex_db_one))
     = [(''user-1'', - 20)]
   \<and> length (decay_rows ''session-1'' ''rule-1'' (serve_all ex_cycles ex_db_one)) \<le> 1
   \<and> snd (decay_sessions_loop no_faults (ex_now + 2 * ms_per_day) ''user-1'' ex_rule
            [ex_session_one] (serve_all ex_cycles ex_db_one))
       = serve_all ex_cycles ex_db_one"
proof -
  have a: "coin_ledger ex_db_one = []" by (simp add: ex_db_one_def fresh_db_def)
  have b: "distinct (map s_session_id (learning_sessions ex_db_one))"
    by (simp add: ex_db_one_def fresh_db_def)
  have c: "map (\<lambda>e. (user_id e, amount e))
             (decay_rows ''session-1'' ''rule-1'' (serve_all ex_cycles ex_db_one))
     = [(''user-1'', - 20)]" by code_simp
  have d: "session_of_user ''user-1'' (session_id ex_session_one) (serve_all ex_cycles ex_db_one)
           \<and> decay_rows (session_id ex_session_one) (rule_id ex_rule) (serve_all ex_cycles ex_db_one) \<noteq> []"
    by code_simp
  from decay_at_most_once [OF a b, where reqs = ex_cycles and sid = "''session-1''"
      and rid = "''rule-1''" and uid = "''user-1''" and s = ex_session_one and r = ex_rule
      and now = "ex_now + 2 * ms_per_day" and fails = no_faults] c d
  show ?thesis by simp
qed

end
